theory Spec2Isabelle
  imports Complex_Main
begin

section \<open>Python values, strings and exceptions\<close>

text \<open>
  The model covers \<^verbatim>\<open>src/pubchem_server.py\<close>: the start-up code that reads
  \<^verbatim>\<open>config.ini\<close> and checks the proxy, \<^verbatim>\<open>compound_to_dict\<close>,
  \<^verbatim>\<open>search_by_name_with_retries\<close> and the tool \<^verbatim>\<open>search_compounds_by_name\<close>.
  The PubChem client library, \<^verbatim>\<open>requests\<close>, the clock and the log file are the
  environment: every call into them is an event of a trace, and what the client library
  answers is a parameter of the model.
\<close>

text \<open>
  Exceptions that the \<^verbatim>\<open>try\<close> of \<^verbatim>\<open>search_by_name_with_retries\<close>
  tells apart: \<^verbatim>\<open>pcp.PubChemHTTPError\<close> and every other subclass of
  \<^verbatim>\<open>Exception\<close>. Each carries \<^verbatim>\<open>str(e)\<close>. What is not an
  \<^verbatim>\<open>Exception\<close> (\<^verbatim>\<open>KeyboardInterrupt\<close>, \<^verbatim>\<open>SystemExit\<close>, the
  cancellation of the task) is not raised by the calls modelled here and is left out.
\<close>

datatype exn = PubChemHTTPError string | OtherException string

fun str_exn :: "exn \<Rightarrow> string" where
  "str_exn (PubChemHTTPError m) = m"
| "str_exn (OtherException m) = m"

text \<open>
  The values a property dictionary holds, all of them values that \<^verbatim>\<open>json.dumps\<close>
  serialises.
\<close>

datatype pyval = PyNone | PyInt int | PyFloat rat | PyStr string | PyList "pyval list"

type_synonym pydict = "(string \<times> pyval) list"

text \<open>\<^verbatim>\<open>d[k] = v\<close> on an insertion-ordered dictionary.\<close>

fun dict_set :: "pydict \<Rightarrow> string \<Rightarrow> pyval \<Rightarrow> pydict" where
  "dict_set [] k v = [(k, v)]"
| "dict_set ((k', v') # d) k v = (if k' = k then (k, v) # d else (k', v') # dict_set d k v)"

text \<open>\<^verbatim>\<open>props.get(key)\<close>: the value, or \<^verbatim>\<open>None\<close> for a missing key.\<close>

definition dict_get :: "pydict \<Rightarrow> string \<Rightarrow> pyval" where
  "dict_get d k = (case map_of d k of None \<Rightarrow> PyNone | Some v \<Rightarrow> v)"

definition sq :: string where
  "sq = [CHR 0x27]"

definition digit_char :: "nat \<Rightarrow> char" where
  "digit_char d =
     (if d = 0 then CHR ''0'' else if d = 1 then CHR ''1'' else if d = 2 then CHR ''2''
      else if d = 3 then CHR ''3'' else if d = 4 then CHR ''4'' else if d = 5 then CHR ''5''
      else if d = 6 then CHR ''6'' else if d = 7 then CHR ''7'' else if d = 8 then CHR ''8''
      else CHR ''9'')"

fun str_nat :: "nat \<Rightarrow> string" where
  "str_nat n = (if n < 10 then [digit_char n] else str_nat (n div 10) @ [digit_char (n mod 10)])"

text \<open>\<^verbatim>\<open>str(i)\<close> for a Python integer, as the f-strings render it.\<close>

definition str_int :: "int \<Rightarrow> string" where
  "str_int i = (if i < 0 then ''-'' @ str_nat (nat (- i)) else str_nat (nat i))"

text \<open>\<^verbatim>\<open>sub in s\<close> on strings.\<close>

fun py_in :: "string \<Rightarrow> string \<Rightarrow> bool" where
  "py_in sub [] = (sub = [])"
| "py_in sub (c # cs) = (take (length sub) (c # cs) = sub \<or> py_in sub cs)"

text \<open>\<^verbatim>\<open>str.lower()\<close> and \<^verbatim>\<open>str.upper()\<close>, on ASCII letters.\<close>

definition lower_char :: "char \<Rightarrow> char" where
  "lower_char c =
     (case map_of (zip ''ABCDEFGHIJKLMNOPQRSTUVWXYZ'' ''abcdefghijklmnopqrstuvwxyz'') c of
        None \<Rightarrow> c | Some d \<Rightarrow> d)"

definition upper_char :: "char \<Rightarrow> char" where
  "upper_char c =
     (case map_of (zip ''abcdefghijklmnopqrstuvwxyz'' ''ABCDEFGHIJKLMNOPQRSTUVWXYZ'') c of
        None \<Rightarrow> c | Some d \<Rightarrow> d)"

definition lower :: "string \<Rightarrow> string" where
  "lower s = map lower_char s"

definition upper :: "string \<Rightarrow> string" where
  "upper s = map upper_char s"

section \<open>The environment: trace events and the PubChem client\<close>

datatype level = INFO | WARNING | ERROR | CRITICAL

type_synonym proxy_dict = "(string \<times> string) list"

text \<open>
  One event per effect of the program, in the order the program performs them:
  \<^item> \<open>Log\<close>: a call of \<^verbatim>\<open>logging.info/warning/error/critical\<close> with the rendered message;
  \<^item> \<open>LogJson\<close>: \<^verbatim>\<open>logging.info(json.dumps(data, indent=2))\<close>, the payload kept structured;
  \<^item> \<open>WriteConfig\<close>: the creation of \<^verbatim>\<open>config.ini\<close> from the default template;
  \<^item> \<open>RequestsGet url proxies timeout\<close>: \<^verbatim>\<open>requests.get(url, proxies=..., timeout=...)\<close>;
  \<^item> \<open>GetCompounds name proxies\<close>:
    \<^verbatim>\<open>pcp.get_compounds(name, 'name', record_type='3d', max_records=1, proxies=...)\<close>;
  \<^item> \<open>GetCids name proxies\<close>: \<^verbatim>\<open>pcp.get_cids(name, 'name', 'substance', proxies=...)\<close>;
  \<^item> \<open>FromCid cid proxies\<close>: \<^verbatim>\<open>pcp.Compound.from_cid(cid, proxies=...)\<close>;
  \<^item> \<open>TimeSleep d\<close>: \<^verbatim>\<open>time.sleep(d)\<close>; \<open>AsyncSleep d\<close>: \<^verbatim>\<open>await asyncio.sleep(d)\<close>.
\<close>

datatype event =
    Log level string
  | LogJson level "pydict list"
  | WriteConfig
  | RequestsGet string proxy_dict nat
  | GetCompounds string "proxy_dict option"
  | GetCids string "proxy_dict option"
  | FromCid int "proxy_dict option"
  | TimeSleep int
  | AsyncSleep rat

text \<open>
  A \<^verbatim>\<open>Compound\<close> object as far as the program looks at it:
  \<^verbatim>\<open>hasattr(c, 'cid')\<close>, the value of \<^verbatim>\<open>c.cid\<close> (\<open>None\<close> is Python's
  \<^verbatim>\<open>None\<close>) and what \<^verbatim>\<open>c.to_dict()\<close> returns or raises.
\<close>

record compound =
  has_cid :: bool
  cid :: "int option"
  to_dict :: "exn + pydict"

text \<open>
  An entry of the substance-domain answer, a dictionary such as
  \<^verbatim>\<open>{'SID': 1, 'CID': [2244]}\<close>; \<open>CID = None\<close> is an entry without the key.
\<close>

record substance_entry =
  SID :: "int option"
  CID :: "int list option"

text \<open>
  The client library over a world \<open>'w\<close> (the remote service and the network): each call
  answers or raises, and leaves a new world. \<open>from_cid\<close> answers \<open>None\<close> for a
  falsy object.
\<close>

record 'w pubchem =
  get_compounds :: "string \<Rightarrow> proxy_dict option \<Rightarrow> 'w \<Rightarrow> (exn + compound list) \<times> 'w"
  get_cids :: "string \<Rightarrow> proxy_dict option \<Rightarrow> 'w \<Rightarrow> (exn + substance_entry list) \<times> 'w"
  from_cid :: "int \<Rightarrow> proxy_dict option \<Rightarrow> 'w \<Rightarrow> (exn + compound option) \<times> 'w"

section \<open>Start-up: configuration and proxy check (lines 28 to 94)\<close>

text \<open>
  The \<^verbatim>\<open>[proxy]\<close> section of \<^verbatim>\<open>config.ini\<close> as parsed; \<open>None\<close> is a
  missing option, for which the \<^verbatim>\<open>fallback\<close> applies.
\<close>

record ini =
  use_proxy :: "bool option"
  proxy_type :: "string option"
  host :: "string option"
  port :: "int option"

definition DEFAULT_CONFIG_CONTENT :: ini where
  "DEFAULT_CONFIG_CONTENT =
     \<lparr>use_proxy = Some False, proxy_type = Some ''socks5h'',
      host = Some ''127.0.0.1'', port = Some 9050\<rparr>"

text \<open>The module's globals after start-up.\<close>

record globals =
  USE_PROXY :: bool
  proxies :: "proxy_dict option"
  CONNECTION_TYPE :: string

text \<open>
  What the request to the Tor check page does: it raises a
  \<^verbatim>\<open>requests.exceptions.RequestException\<close> (timeout, refused connection, unsupported
  scheme), raises something else, or answers with a response, of which the program uses
  \<^verbatim>\<open>raise_for_status()\<close> (\<open>Some m\<close>: it raises an \<^verbatim>\<open>HTTPError\<close>, which is a
  \<^verbatim>\<open>RequestException\<close>) and \<^verbatim>\<open>text\<close>.
\<close>

datatype check_reply =
    Raises_RequestException string
  | Raises_Other string
  | Response "string option" string

definition proxy_check_failed :: "string \<Rightarrow> string \<Rightarrow> event list" where
  "proxy_check_failed pt e =
     [Log CRITICAL (''['' @ upper pt @ '' PROXY CHECK] !! CRITICAL FAILURE !! Could not connect through the proxy. Error: '' @ e),
      Log CRITICAL (''['' @ upper pt @ '' PROXY CHECK] Please ensure the proxy is running and that the required dependency (e.g., PySocks) is installed.'')]"

text \<open>Lines 59 to 65: the value of \<^verbatim>\<open>USE_PROXY\<close>; a missing file is created from the template.\<close>

definition read_use_proxy :: "ini option \<Rightarrow> bool" where
  "read_use_proxy config_file =
     (case use_proxy (case config_file of None \<Rightarrow> DEFAULT_CONFIG_CONTENT | Some c \<Rightarrow> c) of
        None \<Rightarrow> False | Some b \<Rightarrow> b)"

text \<open>Line 68: \<^verbatim>\<open>proxy_type\<close> as read.\<close>

definition read_proxy_type :: "ini \<Rightarrow> string" where
  "read_proxy_type config = lower (case proxy_type config of None \<Rightarrow> ''socks5h'' | Some t \<Rightarrow> t)"

text \<open>Lines 72 to 74: \<^verbatim>\<open>proxy_type\<close> after the check against the supported schemes.\<close>

definition checked_proxy_type :: "ini \<Rightarrow> string" where
  "checked_proxy_type config =
     (if read_proxy_type config \<in> set [''socks5h'', ''socks5'', ''http'', ''https'']
      then read_proxy_type config else ''socks5h'')"

text \<open>Lines 69, 70 and 76 to 79: the \<^verbatim>\<open>proxies\<close> dictionary.\<close>

definition proxy_url :: "ini \<Rightarrow> string" where
  "proxy_url config =
     checked_proxy_type config @ ''://'' @ (case host config of None \<Rightarrow> ''127.0.0.1'' | Some h \<Rightarrow> h)
     @ '':'' @ str_int (case port config of None \<Rightarrow> 9050 | Some p \<Rightarrow> p)"

definition proxy_dict_of :: "ini \<Rightarrow> proxy_dict" where
  "proxy_dict_of config = [(''http'', proxy_url config), (''https'', proxy_url config)]"

text \<open>
  The replies to the check that reach the
  \<^verbatim>\<open>except requests.exceptions.RequestException\<close> handler (lines 90 to 92).
\<close>

fun check_fails :: "check_reply \<Rightarrow> bool" where
  "check_fails (Raises_RequestException m) = True"
| "check_fails (Response (Some m) body) = True"
| "check_fails r = False"

text \<open>
  The module's top-level code: the globals it leaves, or the exception that ends the
  import, with the events on the way.
\<close>

definition startup :: "ini option \<Rightarrow> (proxy_dict \<Rightarrow> check_reply) \<Rightarrow> (exn + globals) \<times> event list" where
  "startup config_file check =
     (let ev0 = (case config_file of
                   None \<Rightarrow> [Log WARNING ''config.ini not found. Creating a new one with default safe values.'',
                            WriteConfig]
                 | Some _ \<Rightarrow> []);
          config = (case config_file of None \<Rightarrow> DEFAULT_CONFIG_CONTENT | Some c \<Rightarrow> c)
      in if read_use_proxy config_file then
           (let proxy_host = (case host config of None \<Rightarrow> ''127.0.0.1'' | Some h \<Rightarrow> h);
                proxy_port = (case port config of None \<Rightarrow> 9050 | Some p \<Rightarrow> p);
                ev1 = (if read_proxy_type config \<in> set [''socks5h'', ''socks5'', ''http'', ''https'']
                       then []
                       else [Log ERROR (''Invalid proxy_type '' @ sq @ read_proxy_type config @ sq
                                        @ '' in config.ini. Defaulting to '' @ sq @ ''socks5h'' @ sq @ ''.'')]);
                pt = checked_proxy_type config;
                pd = proxy_dict_of config;
                g = \<lparr>USE_PROXY = True, proxies = Some pd,
                     CONNECTION_TYPE = ''Proxy '' @ upper pt @ '' ('' @ proxy_url config @ '')''\<rparr>;
                ev2 = ev0 @ ev1
                      @ [Log INFO (''['' @ upper pt @ '' PROXY ENABLED] Will attempt to use proxy at ''
                                   @ proxy_host @ '':'' @ str_int proxy_port),
                         RequestsGet ''https://check.torproject.org/'' pd 30]
            in case check pd of
                 Raises_Other m \<Rightarrow> (Inl (OtherException m), ev2)
               | Raises_RequestException m \<Rightarrow> (Inr g, ev2 @ proxy_check_failed pt m)
               | Response status body \<Rightarrow>
                   (case status of
                      Some m \<Rightarrow> (Inr g, ev2 @ proxy_check_failed pt m)
                    | None \<Rightarrow>
                        if py_in ''Congratulations. This browser is configured to use Tor.'' body
                        then (Inr g, ev2 @ [Log INFO (''['' @ upper pt @ '' PROXY CHECK] SUCCESS! Connection through the Tor network verified successfully.'')])
                        else (Inr g, ev2 @ [Log WARNING (''['' @ upper pt @ '' PROXY CHECK] WARNING: Connection was successful, but the response does not confirm Tor usage.'')])))
         else (Inr \<lparr>USE_PROXY = False, proxies = None, CONNECTION_TYPE = ''Direct''\<rparr>,
               ev0 @ [Log INFO ''[PROXY DISABLED] Using a direct connection. Your real IP will be visible to PubChem.'']))"

section \<open>compound_to_dict (lines 101 to 110)\<close>

definition keys_to_ensure :: "string list" where
  "keys_to_ensure = [''cid'', ''iupac_name'', ''molecular_formula'', ''molecular_weight'',
                     ''monoisotopic_mass'', ''synonyms'', ''charge'']"

text \<open>The result is the dictionary or \<^verbatim>\<open>None\<close>, with the events logged on the way.\<close>

definition compound_to_dict :: "compound option \<Rightarrow> pydict option \<times> event list" where
  "compound_to_dict c =
     (case c of
        None \<Rightarrow> (None, [])
      | Some obj \<Rightarrow>
          (case to_dict obj of
             Inr props \<Rightarrow> (Some (map (\<lambda>key. (key, dict_get props key)) keys_to_ensure), [])
           | Inl e \<Rightarrow> (None, [Log ERROR (''Could not convert compound to dictionary: '' @ str_exn e)])))"

section \<open>search_by_name_with_retries (lines 112 to 152)\<close>

text \<open>
  Every function below takes the world and returns its result, the world it leaves and
  the events it performed, in order. A result \<open>Inl e\<close> is the exception \<open>e\<close> raised.
\<close>

text \<open>Python's truth value of \<^verbatim>\<open>cid\<close>: neither \<^verbatim>\<open>None\<close> nor zero.\<close>

definition truthy :: "int option \<Rightarrow> bool" where
  "truthy c = (case c of None \<Rightarrow> False | Some n \<Rightarrow> n \<noteq> 0)"

text \<open>Lines 117, 120 and 121: the identifier taken from the compound-domain answer.\<close>

definition primary_cid :: "compound list \<Rightarrow> int option" where
  "primary_cid compounds =
     (if compounds \<noteq> [] \<and> has_cid (hd compounds) \<and> truthy (cid (hd compounds))
      then cid (hd compounds) else None)"

text \<open>Lines 125 to 128: the identifier taken from the substance-domain answer.\<close>

definition substance_cid :: "substance_entry list \<Rightarrow> int option" where
  "substance_cid cids_from_substance =
     (case cids_from_substance of
        [] \<Rightarrow> None
      | first_result # _ \<Rightarrow>
          (case CID first_result of
             None \<Rightarrow> None
           | Some l \<Rightarrow> (case l of [] \<Rightarrow> None | c # _ \<Rightarrow> Some c)))"

text \<open>Lines 117 to 128: the two-domain resolution of a name to an identifier.\<close>

definition resolve ::
  "globals \<Rightarrow> 'w pubchem \<Rightarrow> string \<Rightarrow> 'w \<Rightarrow> (exn + int option) \<times> 'w \<times> event list" where
  "resolve g pcp name w =
     (let ev1 = [Log INFO (''   -> Attempt 1: Searching in '' @ sq @ ''Compound'' @ sq @ '' domain''),
                 GetCompounds name (proxies g)]
      in case get_compounds pcp name (proxies g) w of
           (Inl e, w1) \<Rightarrow> (Inl e, w1, ev1)
         | (Inr compounds, w1) \<Rightarrow>
             (let cid' = primary_cid compounds
              in if truthy cid' then (Inr cid', w1, ev1)
                 else
                   (let ev2 = ev1 @ [Log WARNING (''   -> Search in '' @ sq @ ''Compound'' @ sq
                                        @ '' failed. Falling back to '' @ sq @ ''Substance'' @ sq @ '' domain...''),
                                     GetCids name (proxies g)]
                    in case get_cids pcp name (proxies g) w1 of
                         (Inl e, w2) \<Rightarrow> (Inl e, w2, ev2)
                       | (Inr cids_from_substance, w2) \<Rightarrow>
                           (Inr (substance_cid cids_from_substance), w2, ev2))))"

text \<open>The dictionary \<^verbatim>\<open>{"error": msg, "compound_name": name}\<close>.\<close>

definition failure :: "string \<Rightarrow> string \<Rightarrow> pydict" where
  "failure msg name = [(''error'', PyStr msg), (''compound_name'', PyStr name)]"

definition not_found :: "string \<Rightarrow> pydict" where
  "not_found name = failure (''Compound '' @ sq @ name @ sq @ '' not found in PubChem.'') name"

text \<open>Lines 132 to 139: the full record of a resolved identifier.\<close>

definition fetch ::
  "globals \<Rightarrow> 'w pubchem \<Rightarrow> string \<Rightarrow> int \<Rightarrow> 'w \<Rightarrow> (exn + pydict) \<times> 'w \<times> event list" where
  "fetch g pcp name cid' w =
     (let ev1 = [Log INFO (''CID found for '' @ sq @ name @ sq @ '': '' @ str_int cid'
                           @ ''. Fetching full record...''),
                 FromCid cid' (proxies g)];
          unusable = failure (''Could not process full record for '' @ sq @ name @ sq
                              @ '' (CID: '' @ str_int cid' @ '').'') name
      in case from_cid pcp cid' (proxies g) w of
           (Inl e, w1) \<Rightarrow> (Inl e, w1, ev1)
         | (Inr full_compound, w1) \<Rightarrow>
             (case compound_to_dict full_compound of
                (None, ev2) \<Rightarrow> (Inr unusable, w1, ev1 @ ev2)
              | (Some result_dict, ev2) \<Rightarrow>
                  if result_dict \<noteq> []
                  then (Inr (dict_set result_dict ''search_term'' (PyStr name)), w1, ev1 @ ev2)
                  else (Inr unusable, w1, ev1 @ ev2)))"

text \<open>
  Lines 116 to 139, the body of the \<^verbatim>\<open>try\<close>: it returns a dictionary (\<open>Inr\<close>) or
  raises (\<open>Inl\<close>).
\<close>

definition try_body ::
  "globals \<Rightarrow> 'w pubchem \<Rightarrow> string \<Rightarrow> int \<Rightarrow> int \<Rightarrow> 'w \<Rightarrow> (exn + pydict) \<times> 'w \<times> event list" where
  "try_body g pcp name attempt max_retries w =
     (let ev0 = [Log INFO (''Searching ('' @ CONNECTION_TYPE g @ ''): '' @ sq @ name @ sq
                           @ '' (Attempt '' @ str_int (attempt + 1) @ ''/'' @ str_int max_retries @ '')...'')]
      in case resolve g pcp name w of
           (Inl e, w1, ev1) \<Rightarrow> (Inl e, w1, ev0 @ ev1)
         | (Inr cid', w1, ev1) \<Rightarrow>
             if \<not> truthy cid'
             then (Inr (not_found name), w1,
                   ev0 @ ev1 @ [Log WARNING (''No valid CID found for '' @ sq @ name @ sq @ '' in any domain.'')])
             else (case fetch g pcp name (the cid') w1 of
                     (r, w2, ev2) \<Rightarrow> (r, w2, ev0 @ ev1 @ ev2)))"

text \<open>\<^verbatim>\<open>'Server Busy' in str(e) or '503' in str(e)\<close>\<close>

definition is_busy :: "string \<Rightarrow> bool" where
  "is_busy m = (py_in ''Server Busy'' m \<or> py_in ''503'' m)"

definition http_error :: "string \<Rightarrow> pydict" where
  "http_error name = failure (''Compound '' @ sq @ name @ sq @ '' not found in PubChem (HTTP Error).'') name"

definition general_error :: "string \<Rightarrow> string \<Rightarrow> pydict" where
  "general_error name m = failure (''General error for '' @ sq @ name @ sq @ '': '' @ m) name"

definition retries_exhausted :: "string \<Rightarrow> int \<Rightarrow> pydict" where
  "retries_exhausted name max_retries =
     failure (''Failed to get data for '' @ sq @ name @ sq @ '' after '' @ str_int max_retries @ '' retries.'') name"

text \<open>
  The \<^verbatim>\<open>for attempt in range(max_retries)\<close> loop over the attempts still to make, with
  the \<^verbatim>\<open>except\<close> clauses, and lines 151 and 152 once the range is used up.
  \<^verbatim>\<open>time.sleep\<close> raises \<^verbatim>\<open>ValueError\<close> for a negative delay; raised inside the
  handler, it leaves the function.
\<close>

fun attempts_loop ::
  "globals \<Rightarrow> 'w pubchem \<Rightarrow> string \<Rightarrow> int \<Rightarrow> int \<Rightarrow> int list \<Rightarrow> 'w \<Rightarrow> (exn + pydict) \<times> 'w \<times> event list" where
  "attempts_loop g pcp name max_retries retry_delay [] w =
     (Inr (retries_exhausted name max_retries), w,
      [Log ERROR (''Failed to search for '' @ sq @ name @ sq @ '' after '' @ str_int max_retries @ '' attempts.'')])"
| "attempts_loop g pcp name max_retries retry_delay (attempt # rest) w =
     (case try_body g pcp name attempt max_retries w of
        (Inr r, w1, ev1) \<Rightarrow> (Inr r, w1, ev1)
      | (Inl (PubChemHTTPError m), w1, ev1) \<Rightarrow>
          if is_busy m then
            (let ev2 = ev1 @ [Log WARNING (''Server busy for '' @ sq @ name @ sq @ ''. Retrying in ''
                                           @ str_int retry_delay @ '' seconds...'')]
             in if retry_delay < 0
                then (Inl (OtherException ''sleep length must be non-negative''), w1, ev2)
                else (case attempts_loop g pcp name max_retries retry_delay rest w1 of
                        (r, w2, ev3) \<Rightarrow> (r, w2, ev2 @ [TimeSleep retry_delay] @ ev3)))
          else (Inr (http_error name), w1,
                ev1 @ [Log ERROR (''PubChem HTTP Error for '' @ sq @ name @ sq @ '': '' @ m)])
      | (Inl (OtherException m), w1, ev1) \<Rightarrow>
          (Inr (general_error name m), w1,
           ev1 @ [Log ERROR (''General error while searching for '' @ sq @ name @ sq @ '': '' @ m)]))"

text \<open>\<^verbatim>\<open>range(n)\<close>, empty for \<open>n \<le> 0\<close>.\<close>

definition py_range :: "int \<Rightarrow> int list" where
  "py_range n = map int [0..<nat n]"

definition search_by_name_with_retries ::
  "globals \<Rightarrow> 'w pubchem \<Rightarrow> string \<Rightarrow> int \<Rightarrow> int \<Rightarrow> 'w \<Rightarrow> (exn + pydict) \<times> 'w \<times> event list" where
  "search_by_name_with_retries g pcp name max_retries retry_delay w =
     attempts_loop g pcp name max_retries retry_delay (py_range max_retries) w"

section \<open>search_compounds_by_name (lines 154 to 177)\<close>

definition log_results_to_file :: "pydict list \<Rightarrow> event list" where
  "log_results_to_file data =
     [Log INFO ''--- DEBUG: DATA BEING SENT TO LLM ---'', LogJson INFO data, Log INFO ''--- END OF DATA ---'']"

definition PAUSE_BETWEEN_REQUESTS :: rat where
  "PAUSE_BETWEEN_REQUESTS = 2"

text \<open>
  The \<^verbatim>\<open>for name in names\<close> loop, with \<open>all_results\<close> as collected so far. The lookup
  is called with its defaults, \<open>max_retries = 3\<close> and \<open>retry_delay = 5\<close>; an exception
  leaving it would leave the loop. The f-string renders the pause as \<^verbatim>\<open>2.0\<close>.
\<close>

fun batch_loop ::
  "globals \<Rightarrow> 'w pubchem \<Rightarrow> string list \<Rightarrow> pydict list \<Rightarrow> 'w \<Rightarrow> (exn + pydict list) \<times> 'w \<times> event list" where
  "batch_loop g pcp [] all_results w = (Inr all_results, w, [])"
| "batch_loop g pcp (name # rest) all_results w =
     (case search_by_name_with_retries g pcp name 3 5 w of
        (Inl e, w1, ev1) \<Rightarrow> (Inl e, w1, ev1)
      | (Inr result, w1, ev1) \<Rightarrow>
          (case batch_loop g pcp rest (all_results @ [result]) w1 of
             (r, w2, ev2) \<Rightarrow>
               (r, w2, ev1 @ [Log INFO ''Pausing for 2.0s.'', AsyncSleep PAUSE_BETWEEN_REQUESTS] @ ev2)))"

definition search_compounds_by_name ::
  "globals \<Rightarrow> 'w pubchem \<Rightarrow> string list \<Rightarrow> 'w \<Rightarrow> (exn + pydict list) \<times> 'w \<times> event list" where
  "search_compounds_by_name g pcp names w =
     (let ev0 = [Log INFO (''Initiating SMART and SEQUENTIAL search for '' @ str_int (int (length names))
                           @ '' compounds...'')]
      in case batch_loop g pcp names [] w of
           (Inl e, w1, ev1) \<Rightarrow> (Inl e, w1, ev0 @ ev1)
         | (Inr all_results, w1, ev1) \<Rightarrow>
             (Inr all_results, w1, ev0 @ ev1 @ log_results_to_file all_results))"

section \<open>Shapes of an outcome\<close>

text \<open>
  A success record: the canonical keys in order, then \<open>search_term\<close> holding the queried
  name, and no \<open>error\<close> key.
\<close>

definition is_success :: "string \<Rightarrow> pydict \<Rightarrow> bool" where
  "is_success name r =
     (map fst r = keys_to_ensure @ [''search_term'']
      \<and> map_of r ''search_term'' = Some (PyStr name)
      \<and> map_of r ''error'' = None)"

text \<open>A failure object: an \<open>error\<close> text and \<open>compound_name\<close> holding the queried name.\<close>

definition is_failure :: "string \<Rightarrow> pydict \<Rightarrow> bool" where
  "is_failure name r =
     (map fst r = [''error'', ''compound_name'']
      \<and> (case map_of r ''error'' of Some (PyStr m) \<Rightarrow> True | _ \<Rightarrow> False)
      \<and> map_of r ''compound_name'' = Some (PyStr name))"

section \<open>Counting events\<close>

fun is_request :: "event \<Rightarrow> bool" where
  "is_request (RequestsGet u p t) = True"
| "is_request (GetCompounds n p) = True"
| "is_request (GetCids n p) = True"
| "is_request (FromCid c p) = True"
| "is_request e = False"

text \<open>The proxy configuration an event carries; \<open>None\<close> for a request without one.\<close>

fun proxies_of :: "event \<Rightarrow> proxy_dict option" where
  "proxies_of (RequestsGet u p t) = Some p"
| "proxies_of (GetCompounds n p) = p"
| "proxies_of (GetCids n p) = p"
| "proxies_of (FromCid c p) = p"
| "proxies_of e = None"

fun is_get_compounds :: "event \<Rightarrow> bool" where
  "is_get_compounds (GetCompounds n p) = True"
| "is_get_compounds e = False"

fun is_get_cids :: "event \<Rightarrow> bool" where
  "is_get_cids (GetCids n p) = True"
| "is_get_cids e = False"

fun is_from_cid :: "event \<Rightarrow> bool" where
  "is_from_cid (FromCid c p) = True"
| "is_from_cid e = False"

fun is_time_sleep :: "event \<Rightarrow> bool" where
  "is_time_sleep (TimeSleep d) = True"
| "is_time_sleep e = False"

text \<open>The pacing events of a trace.\<close>

fun is_pacing :: "event \<Rightarrow> bool" where
  "is_pacing (AsyncSleep d) = True"
| "is_pacing e = False"

text \<open>The seconds of \<^verbatim>\<open>asyncio.sleep\<close> that a trace asks for.\<close>

fun pacing :: "event list \<Rightarrow> rat" where
  "pacing [] = 0"
| "pacing (AsyncSleep d # evs) = d + pacing evs"
| "pacing (e # evs) = pacing evs"

section \<open>Attempts\<close>

text \<open>
  What one pass through the \<^verbatim>\<open>try\<close> block returns or raises in a world, and the
  world it leaves. The attempt counter and \<open>max_retries\<close> only feed a log message.
\<close>

definition attempt_outcome :: "globals \<Rightarrow> 'w pubchem \<Rightarrow> string \<Rightarrow> 'w \<Rightarrow> (exn + pydict) \<times> 'w" where
  "attempt_outcome g pcp name w = (case try_body g pcp name 0 1 w of (r, w', ev) \<Rightarrow> (r, w'))"

text \<open>The exceptions for which the handler sleeps and continues the loop (lines 140 to 144).\<close>

definition is_transient :: "exn \<Rightarrow> bool" where
  "is_transient e = (case e of PubChemHTTPError m \<Rightarrow> is_busy m | OtherException m \<Rightarrow> False)"

text \<open>Each pass through the \<^verbatim>\<open>try\<close> block starts with one compound-domain search.\<close>

definition attempts_made :: "event list \<Rightarrow> nat" where
  "attempts_made evs = length (filter is_get_compounds evs)"

section \<open>Test doubles\<close>

definition direct :: globals where
  "direct = \<lparr>USE_PROXY = False, proxies = None, CONNECTION_TYPE = ''Direct''\<rparr>"

text \<open>A configuration that asks for a proxy, and a check page that cannot be reached.\<close>

definition tor_config :: ini where
  "tor_config = \<lparr>use_proxy = Some True, proxy_type = Some ''SOCKS5'', host = None, port = None\<rparr>"

definition unreachable :: "proxy_dict \<Rightarrow> check_reply" where
  "unreachable pd = Raises_RequestException ''timed out''"

definition aspirin :: compound where
  "aspirin =
     \<lparr>has_cid = True, cid = Some 2244,
      to_dict = Inr [(''charge'', PyInt 0), (''cid'', PyInt 2244),
                     (''molecular_formula'', PyStr ''C9H8O4'')]\<rparr>"

text \<open>A record that resolves but whose \<^verbatim>\<open>to_dict()\<close> raises.\<close>

definition broken :: compound where
  "broken = \<lparr>has_cid = True, cid = Some 5, to_dict = Inl (OtherException ''KeyError: atoms'')\<rparr>"

definition busy :: exn where
  "busy = PubChemHTTPError ''PUGREST.ServerBusy: 503 Server Busy''"

text \<open>
  A stub of the client library. Its world counts the busy answers still to come from the
  compound-domain search and from the full-record fetch. \<open>Aspirin\<close> resolves in the
  compound domain, \<open>Phantom\<close> too, to the broken record; \<open>Acetylsalicylic acid\<close>
  resolves only in the substance domain, and for \<open>Mixture\<close> the substance domain lists
  an entry without identifiers before one with.
\<close>

definition stub :: "(nat \<times> nat) pubchem" where
  "stub =
     \<lparr>get_compounds = (\<lambda>name p (a, b).
          if 0 < a then (Inl busy, (a - 1, b))
          else (Inr (if name = ''Aspirin'' then [aspirin]
                     else if name = ''Phantom'' then [broken] else []), (a, b))),
      get_cids = (\<lambda>name p (a, b).
          (Inr (if name = ''Acetylsalicylic acid'' then [\<lparr>SID = Some 1, CID = Some [2244, 5]\<rparr>]
                else if name = ''Mixture''
                then [\<lparr>SID = Some 7, CID = None\<rparr>, \<lparr>SID = Some 8, CID = Some [2244]\<rparr>]
                else []), (a, b))),
      from_cid = (\<lambda>c p (a, b).
          if 0 < b then (Inl busy, (a, b - 1))
          else (Inr (Some (if c = 2244 then aspirin else broken)), (a, b)))\<rparr>"

section \<open>Lemmas on the lookup and the batch loop\<close>

lemma failure_is_failure: "is_failure name (failure msg name)"
  by (simp add: is_failure_def failure_def)

lemma success_not_failure: "is_success name r \<Longrightarrow> \<not> is_failure name r"
  by (auto simp: is_success_def is_failure_def keys_to_ensure_def)

lemma compound_to_dict_keys:
  "compound_to_dict c = (Some d, ev) \<Longrightarrow> map fst d = keys_to_ensure"
  by (auto simp: compound_to_dict_def comp_def split: option.splits sum.splits)

lemma dict_set_search_term:
  assumes "map fst d = keys_to_ensure"
  shows "is_success name (dict_set d ''search_term'' (PyStr name))"
proof -
  from assms obtain v1 v2 v3 v4 v5 v6 v7 where
    "d = [(''cid'', v1), (''iupac_name'', v2), (''molecular_formula'', v3), (''molecular_weight'', v4),
          (''monoisotopic_mass'', v5), (''synonyms'', v6), (''charge'', v7)]"
    by (auto simp: keys_to_ensure_def map_eq_Cons_conv)
  then show ?thesis
    by (simp add: is_success_def keys_to_ensure_def)
qed

lemma fetch_shape:
  "fetch g pcp name c w = (Inr r, w', ev) \<Longrightarrow> is_success name r \<or> is_failure name r"
  by (auto simp: fetch_def Let_def failure_is_failure dict_set_search_term compound_to_dict_keys
           split: prod.splits sum.splits option.splits if_splits)

lemma try_body_shape:
  "try_body g pcp name a mr w = (Inr r, w', ev) \<Longrightarrow> is_success name r \<or> is_failure name r"
  by (auto simp: try_body_def Let_def not_found_def failure_is_failure
           split: prod.splits sum.splits if_splits dest: fetch_shape)

lemma attempts_loop_shape:
  "attempts_loop g pcp name mr rd as w = (Inr r, w', ev) \<Longrightarrow> is_success name r \<or> is_failure name r"
proof (induction as arbitrary: w w' ev)
  case Nil
  then show ?case by (auto simp: retries_exhausted_def failure_is_failure)
next
  case (Cons a as)
  then show ?case
    by (auto simp: Let_def http_error_def general_error_def failure_is_failure
             split: prod.splits sum.splits exn.splits if_splits dest: try_body_shape)
qed

lemma attempts_loop_returns:
  "0 \<le> rd \<Longrightarrow> \<exists>r. fst (attempts_loop g pcp name mr rd as w) = Inr r"
proof (induction as arbitrary: w)
  case Nil
  then show ?case by simp
next
  case (Cons a as)
  show ?case
  proof (cases "try_body g pcp name a mr w")
    case (fields res w1 ev1)
    show ?thesis
    proof (cases res)
      case (Inr r)
      with fields show ?thesis by simp
    next
      case (Inl e)
      show ?thesis
      proof (cases e)
        case (OtherException m)
        with Inl fields show ?thesis by simp
      next
        case (PubChemHTTPError m)
        from Cons.IH [OF Cons.prems, of w1] obtain r where "fst (attempts_loop g pcp name mr rd as w1) = Inr r" ..
        with PubChemHTTPError Inl fields Cons.prems show ?thesis
          by (auto simp: Let_def split: prod.splits)
      qed
    qed
  qed
qed

lemma search_returns:
  "0 \<le> rd \<Longrightarrow> \<exists>r. fst (search_by_name_with_retries g pcp name mr rd w) = Inr r"
  by (simp add: search_by_name_with_retries_def attempts_loop_returns)

lemma batch_loop_append:
  "batch_loop g pcp (xs @ ys) acc w =
     (case batch_loop g pcp xs acc w of
        (Inl e, w1, ev1) \<Rightarrow> (Inl e, w1, ev1)
      | (Inr rs, w1, ev1) \<Rightarrow>
          (case batch_loop g pcp ys rs w1 of (r, w2, ev2) \<Rightarrow> (r, w2, ev1 @ ev2)))"
proof (induction xs arbitrary: acc w)
  case Nil
  then show ?case by (simp split: prod.splits)
next
  case (Cons x xs)
  then show ?case
    by (simp split: prod.splits sum.splits)
qed

lemma batch_loop_results:
  "\<exists>rs w' ev. batch_loop g pcp names acc w = (Inr (acc @ rs), w', ev) \<and> length rs = length names"
proof (induction names arbitrary: acc w)
  case Nil
  then show ?case by simp
next
  case (Cons n ns)
  obtain r where r: "fst (search_by_name_with_retries g pcp n 3 5 w) = Inr r"
    using search_returns [of 5 g pcp n 3 w] by auto
  then obtain w1 ev1 where s: "search_by_name_with_retries g pcp n 3 5 w = (Inr r, w1, ev1)"
    by (cases "search_by_name_with_retries g pcp n 3 5 w") auto
  from Cons [of "acc @ [r]" w1] obtain rs w' ev where
    "batch_loop g pcp ns (acc @ [r]) w1 = (Inr ((acc @ [r]) @ rs), w', ev)" "length rs = length ns"
    by blast
  with s show ?case
    by (intro exI [of _ "r # rs"]) simp
qed

lemma search_shape:
  "search_by_name_with_retries g pcp name mr rd w = (Inr r, w', ev) \<Longrightarrow>
     is_success name r \<or> is_failure name r"
  by (auto simp: search_by_name_with_retries_def dest: attempts_loop_shape)

lemma batch_loop_nth:
  assumes "i < length names" and "batch_loop g pcp names [] w = (Inr rs, w', ev)"
  shows "fst (search_by_name_with_retries g pcp (names ! i) 3 5
            (fst (snd (batch_loop g pcp (take i names) [] w)))) = Inr (rs ! i)"
proof -
  obtain rs1 w1 ev1 where 1: "batch_loop g pcp (take i names) [] w = (Inr ([] @ rs1), w1, ev1)"
    and l1: "length rs1 = length (take i names)"
    using batch_loop_results [of g pcp "take i names" "[]" w] by blast
  obtain r where "fst (search_by_name_with_retries g pcp (names ! i) 3 5 w1) = Inr r"
    using search_returns [of 5 g pcp "names ! i" 3 w1] by auto
  then obtain w2 ev2 where 2: "search_by_name_with_retries g pcp (names ! i) 3 5 w1 = (Inr r, w2, ev2)"
    by (cases "search_by_name_with_retries g pcp (names ! i) 3 5 w1") auto
  obtain rs3 w3 ev3 where 3: "batch_loop g pcp (drop (Suc i) names) (rs1 @ [r]) w2 = (Inr ((rs1 @ [r]) @ rs3), w3, ev3)"
    using batch_loop_results [of g pcp "drop (Suc i) names" "rs1 @ [r]" w2] by blast
  have "names = take i names @ (names ! i # drop (Suc i) names)"
    using assms(1) by (simp add: id_take_nth_drop)
  then have "batch_loop g pcp names [] w =
      batch_loop g pcp (take i names @ (names ! i # drop (Suc i) names)) [] w"
    by simp
  also have "\<dots> = (Inr ((rs1 @ [r]) @ rs3), w3, ev1 @ ev2 @ [Log INFO ''Pausing for 2.0s.'', AsyncSleep PAUSE_BETWEEN_REQUESTS] @ ev3)"
    using 1 2 3 by (simp add: batch_loop_append)
  finally have "rs = (rs1 @ [r]) @ rs3"
    using assms(2) by simp
  moreover have "length rs1 = i"
    using l1 assms(1) by simp
  ultimately have "rs ! i = r"
    by (simp add: nth_append)
  with 1 2 show ?thesis by simp
qed

lemma try_body_outcome:
  "attempt_outcome g pcp name w = (r, w') \<Longrightarrow> \<exists>ev. try_body g pcp name a mr w = (r, w', ev)"
  by (auto simp: attempt_outcome_def try_body_def Let_def split: prod.splits sum.splits if_splits)

lemma py_range_3: "py_range 3 = [0, 1, 2]"
  by code_simp

lemma py_range_2: "py_range 2 = [0, 1]"
  by code_simp

lemma exhausted_not_not_found: "retries_exhausted name mr \<noteq> not_found name"
  by (simp add: retries_exhausted_def not_found_def failure_def)

lemma attempts_loop_busy:
  assumes "attempt_outcome g pcp name w = (Inl (PubChemHTTPError m), w1)" "is_busy m" "0 \<le> rd"
  shows "fst (attempts_loop g pcp name mr rd (a # as) w) = fst (attempts_loop g pcp name mr rd as w1)"
proof -
  obtain ev where "try_body g pcp name a mr w = (Inl (PubChemHTTPError m), w1, ev)"
    using try_body_outcome [OF assms(1)] by blast
  with assms(2,3) show ?thesis
    by (simp add: Let_def split: prod.splits)
qed

lemma attempts_loop_returns_now:
  assumes "attempt_outcome g pcp name w = (Inr r, w1)"
  shows "fst (attempts_loop g pcp name mr rd (a # as) w) = Inr r"
proof -
  obtain ev where "try_body g pcp name a mr w = (Inr r, w1, ev)"
    using try_body_outcome [OF assms(1)] by blast
  then show ?thesis by simp
qed

lemma compound_to_dict_events:
  "compound_to_dict c = (d, ev) \<Longrightarrow>
     filter is_request ev = [] \<and> filter is_time_sleep ev = [] \<and> filter is_get_compounds ev = []
     \<and> filter is_get_cids ev = [] \<and> filter is_from_cid ev = []"
  by (auto simp: compound_to_dict_def split: option.splits sum.splits)

lemma resolve_events:
  "resolve g pcp name w = (r, w', ev) \<Longrightarrow>
     length (filter is_get_compounds ev) = 1 \<and> filter is_time_sleep ev = [] \<and> filter is_from_cid ev = []"
  by (auto simp: resolve_def Let_def split: prod.splits sum.splits if_splits)

lemma fetch_events:
  "fetch g pcp name c w = (r, w', ev) \<Longrightarrow>
     filter is_get_compounds ev = [] \<and> filter is_time_sleep ev = [] \<and> filter is_get_cids ev = []
     \<and> filter is_from_cid ev = [FromCid c (proxies g)]"
  by (auto simp: fetch_def Let_def split: prod.splits sum.splits if_splits option.splits
           dest: compound_to_dict_events)

lemma try_body_events:
  assumes "try_body g pcp name a mr w = (r, w', ev)"
  shows "length (filter is_get_compounds ev) = 1 \<and> filter is_time_sleep ev = []"
proof (cases "resolve g pcp name w")
  case (fields res w1 ev1)
  note r = resolve_events [OF fields]
  show ?thesis
  proof (cases res)
    case (Inl e)
    with fields assms r show ?thesis
      by (auto simp: try_body_def)
  next
    case (Inr c)
    show ?thesis
    proof (cases "truthy c")
      case False
      with Inr fields assms r show ?thesis
        by (auto simp: try_body_def)
    next
      case True
      obtain r2 w2 ev2 where f: "fetch g pcp name (the c) w1 = (r2, w2, ev2)"
        by (cases "fetch g pcp name (the c) w1") auto
      from fetch_events [OF f] True Inr fields assms r f show ?thesis
        by (auto simp: try_body_def)
    qed
  qed
qed

lemma attempts_loop_sleeps:
  "attempts_loop g pcp name mr rd as w = (r, w', evs) \<Longrightarrow>
     \<forall>e\<in>set evs. is_time_sleep e \<longrightarrow> e = TimeSleep rd"
proof (induction as arbitrary: w r w' evs)
  case Nil
  then show ?case by auto
next
  case (Cons a as)
  obtain res w1 ev1 where t: "try_body g pcp name a mr w = (res, w1, ev1)"
    by (cases "try_body g pcp name a mr w") auto
  have n: "\<forall>e\<in>set ev1. \<not> is_time_sleep e"
    using try_body_events [OF t] by (simp add: filter_empty_conv)
  obtain r2 w2 ev2 where l: "attempts_loop g pcp name mr rd as w1 = (r2, w2, ev2)"
    by (cases "attempts_loop g pcp name mr rd as w1") auto
  from Cons.IH [OF l] Cons.prems t n l show ?case
    by (auto simp: Let_def split: sum.splits exn.splits if_splits)
qed

lemma attempts_loop_bound:
  "attempts_loop g pcp name mr rd as w = (r, w', evs) \<Longrightarrow> attempts_made evs \<le> length as"
proof (induction as arbitrary: w r w' evs)
  case Nil
  then show ?case by (auto simp: attempts_made_def)
next
  case (Cons a as)
  obtain res w1 ev1 where t: "try_body g pcp name a mr w = (res, w1, ev1)"
    by (cases "try_body g pcp name a mr w") auto
  note n = try_body_events [OF t]
  obtain r2 w2 ev2 where l: "attempts_loop g pcp name mr rd as w1 = (r2, w2, ev2)"
    by (cases "attempts_loop g pcp name mr rd as w1") auto
  from Cons.IH [OF l] Cons.prems t n l show ?case
    by (auto simp: Let_def attempts_made_def split: sum.splits exn.splits if_splits)
qed

lemma attempts_loop_first:
  "attempts_loop g pcp name mr rd (a # as) w = (r, w', evs) \<Longrightarrow> 1 \<le> attempts_made evs"
proof -
  assume p: "attempts_loop g pcp name mr rd (a # as) w = (r, w', evs)"
  obtain res w1 ev1 where t: "try_body g pcp name a mr w = (res, w1, ev1)"
    by (cases "try_body g pcp name a mr w") auto
  note n = try_body_events [OF t]
  obtain r2 w2 ev2 where l: "attempts_loop g pcp name mr rd as w1 = (r2, w2, ev2)"
    by (cases "attempts_loop g pcp name mr rd as w1") auto
  from p t n l show ?thesis
    by (auto simp: Let_def attempts_made_def split: sum.splits exn.splits if_splits)
qed

lemma search_attempts_bound:
  "attempts_made (snd (snd (search_by_name_with_retries g pcp name mr rd w))) \<le> nat mr"
proof -
  obtain r w' evs where "attempts_loop g pcp name mr rd (py_range mr) w = (r, w', evs)"
    by (cases "attempts_loop g pcp name mr rd (py_range mr) w") auto
  from attempts_loop_bound [OF this] this show ?thesis
    by (simp add: search_by_name_with_retries_def py_range_def)
qed

lemma is_transient_iff: "is_transient e \<longleftrightarrow> (\<exists>m. e = PubChemHTTPError m \<and> is_busy m)"
  by (cases e) (simp_all add: is_transient_def)

lemma try_body_not_found:
  "fst (resolve g pcp name w) = Inr c \<Longrightarrow> \<not> truthy c \<Longrightarrow>
     fst (try_body g pcp name a mr w) = Inr (not_found name)"
  by (cases "resolve g pcp name w") (auto simp: try_body_def)

lemma try_body_resolved:
  assumes "resolve g pcp name w = (Inr (Some c), w1, ev1)" and "c \<noteq> 0"
    and "fetch g pcp name c w1 = (r, w2, ev2)"
  shows "\<exists>msg. try_body g pcp name a mr w = (r, w2, Log INFO msg # ev1 @ ev2)"
  using assms by (simp add: try_body_def truthy_def)

lemma fetch_raises:
  "from_cid pcp c (proxies g) w = (Inl e, w1) \<Longrightarrow>
     \<exists>ev. fetch g pcp name c w = (Inl e, w1, ev)"
  by (simp add: fetch_def)

lemma fetch_unusable:
  "from_cid pcp c (proxies g) w = (Inr full, w1) \<Longrightarrow> fst (compound_to_dict full) = None \<Longrightarrow>
     \<exists>r ev. fetch g pcp name c w = (Inr r, w1, ev) \<and> is_failure name r"
  by (cases "compound_to_dict full") (auto simp: fetch_def Let_def failure_is_failure)

lemma attempts_loop_transient:
  assumes "0 \<le> rd" and "try_body g pcp name a mr w = (Inl e, w1, ev1)" and "is_transient e"
    and "attempts_loop g pcp name mr rd (a # as) w = (out, w', evs)"
  shows "\<exists>msg ev3. attempts_loop g pcp name mr rd as w1 = (out, w', ev3)
           \<and> evs = ev1 @ [Log WARNING msg, TimeSleep rd] @ ev3"
proof -
  from assms(3) obtain m where m: "e = PubChemHTTPError m" "is_busy m"
    by (auto simp: is_transient_iff)
  obtain r2 w2 ev2 where "attempts_loop g pcp name mr rd as w1 = (r2, w2, ev2)"
    by (cases "attempts_loop g pcp name mr rd as w1") auto
  with m assms show ?thesis
    by (auto simp: Let_def)
qed

lemma attempts_loop_final:
  assumes "try_body g pcp name a mr w = (res, w1, ev1)"
    and "\<not> (\<exists>e. res = Inl e \<and> is_transient e)"
    and "attempts_loop g pcp name mr rd (a # as) w = (out, w', evs)"
  shows "w' = w1 \<and> attempts_made evs = 1 \<and> filter is_time_sleep evs = []
          \<and> (evs = ev1 \<or> (\<exists>msg. evs = ev1 @ [Log ERROR msg]))
          \<and> (\<exists>r. out = Inr r \<and> (case res of Inr r' \<Rightarrow> r = r' | Inl e \<Rightarrow> is_failure name r))"
  using assms try_body_events [OF assms(1)]
  by (auto simp: Let_def is_transient_def attempts_made_def http_error_def general_error_def
        failure_is_failure split: sum.splits exn.splits if_splits)

lemma fetch_not_not_found: "fst (fetch g pcp name c w) \<noteq> Inr (not_found name)"
proof (cases "fetch g pcp name c w")
  case (fields r w' ev)
  show ?thesis
  proof (cases r)
    case (Inl e)
    with fields show ?thesis by simp
  next
    case (Inr d)
    with fields have "d \<noteq> not_found name"
      by (auto simp: fetch_def Let_def not_found_def failure_def
            split: prod.splits sum.splits option.splits if_splits
            dest!: compound_to_dict_keys dict_set_search_term [where name = name]
            simp: is_success_def keys_to_ensure_def)
    with fields Inr show ?thesis by simp
  qed
qed

lemma resolve_proxies:
  "resolve g pcp name w = (r, w', ev) \<Longrightarrow> \<forall>e\<in>set ev. is_request e \<longrightarrow> proxies_of e = proxies g"
  by (auto simp: resolve_def Let_def split: prod.splits sum.splits if_splits)

lemma fetch_proxies:
  "fetch g pcp name c w = (r, w', ev) \<Longrightarrow> \<forall>e\<in>set ev. is_request e \<longrightarrow> proxies_of e = proxies g"
  by (auto simp: fetch_def Let_def compound_to_dict_def
           split: prod.splits sum.splits if_splits option.splits)

lemma try_body_proxies:
  assumes "try_body g pcp name a mr w = (r, w', ev)"
  shows "\<forall>e\<in>set ev. is_request e \<longrightarrow> proxies_of e = proxies g"
proof (cases "resolve g pcp name w")
  case (fields res w1 ev1)
  note r = resolve_proxies [OF fields]
  obtain r2 w2 ev2 where f: "fetch g pcp name (the (projr res)) w1 = (r2, w2, ev2)"
    by (cases "fetch g pcp name (the (projr res)) w1") auto
  from fetch_proxies [OF f] r fields assms f show ?thesis
    by (cases res) (auto simp: try_body_def Let_def split: if_splits)
qed

lemma attempts_loop_proxies:
  "attempts_loop g pcp name mr rd as w = (r, w', evs) \<Longrightarrow>
     \<forall>e\<in>set evs. is_request e \<longrightarrow> proxies_of e = proxies g"
proof (induction as arbitrary: w r w' evs)
  case Nil
  then show ?case by auto
next
  case (Cons a as)
  obtain res w1 ev1 where t: "try_body g pcp name a mr w = (res, w1, ev1)"
    by (cases "try_body g pcp name a mr w") auto
  note n = try_body_proxies [OF t]
  obtain r2 w2 ev2 where l: "attempts_loop g pcp name mr rd as w1 = (r2, w2, ev2)"
    by (cases "attempts_loop g pcp name mr rd as w1") auto
  from Cons.IH [OF l] Cons.prems t n l show ?case
    by (auto simp: Let_def split: sum.splits exn.splits if_splits)
qed

lemma batch_loop_proxies:
  "batch_loop g pcp names acc w = (r, w', evs) \<Longrightarrow>
     \<forall>e\<in>set evs. is_request e \<longrightarrow> proxies_of e = proxies g"
proof (induction names arbitrary: acc w r w' evs)
  case Nil
  then show ?case by auto
next
  case (Cons n ns)
  obtain res w1 ev1 where t: "search_by_name_with_retries g pcp n 3 5 w = (res, w1, ev1)"
    by (cases "search_by_name_with_retries g pcp n 3 5 w") auto
  then have n: "\<forall>e\<in>set ev1. is_request e \<longrightarrow> proxies_of e = proxies g"
    by (auto simp: search_by_name_with_retries_def dest: attempts_loop_proxies)
  show ?case
  proof (cases res)
    case (Inl e)
    with Cons.prems t n show ?thesis by auto
  next
    case (Inr result)
    obtain r2 w2 ev2 where l: "batch_loop g pcp ns (acc @ [result]) w1 = (r2, w2, ev2)"
      by (cases "batch_loop g pcp ns (acc @ [result]) w1") auto
    from Cons.IH [OF l] Cons.prems t n l Inr show ?thesis
      by auto
  qed
qed

lemma search_compounds_proxies:
  "e \<in> set (snd (snd (search_compounds_by_name g pcp names w))) \<Longrightarrow> is_request e \<Longrightarrow>
     proxies_of e = proxies g"
proof -
  assume e: "e \<in> set (snd (snd (search_compounds_by_name g pcp names w)))" and q: "is_request e"
  obtain r w' evs where b: "batch_loop g pcp names [] w = (r, w', evs)"
    by (cases "batch_loop g pcp names [] w") auto
  from batch_loop_proxies [OF b] e q b show ?thesis
    by (cases r) (auto simp: search_compounds_by_name_def log_results_to_file_def)
qed

lemma search_compounds_returns:
  "\<exists>rs. fst (search_compounds_by_name g pcp names w) = Inr rs"
  using batch_loop_results [of g pcp names "[]" w]
  by (auto simp: search_compounds_by_name_def)

lemmas startup_eval =
  startup_def read_use_proxy_def proxy_dict_of_def proxy_url_def checked_proxy_type_def
  read_proxy_type_def lower_def lower_char_def upper_def upper_char_def str_int_def
  digit_char_def proxy_check_failed_def Let_def

lemma resolve_no_pacing: "resolve g pcp name w = (r, w', ev) \<Longrightarrow> filter is_pacing ev = []"
  by (auto simp: resolve_def Let_def split: prod.splits sum.splits if_splits)

lemma fetch_no_pacing: "fetch g pcp name c w = (r, w', ev) \<Longrightarrow> filter is_pacing ev = []"
  by (auto simp: fetch_def Let_def compound_to_dict_def
           split: prod.splits sum.splits if_splits option.splits)

lemma try_body_no_pacing:
  assumes "try_body g pcp name a mr w = (r, w', ev)"
  shows "filter is_pacing ev = []"
proof (cases "resolve g pcp name w")
  case (fields res w1 ev1)
  note r = resolve_no_pacing [OF fields]
  obtain r2 w2 ev2 where f: "fetch g pcp name (the (projr res)) w1 = (r2, w2, ev2)"
    by (cases "fetch g pcp name (the (projr res)) w1") auto
  from fetch_no_pacing [OF f] r fields assms f show ?thesis
    by (cases res) (auto simp: try_body_def Let_def split: if_splits)
qed

lemma attempts_loop_no_pacing:
  "attempts_loop g pcp name mr rd as w = (r, w', evs) \<Longrightarrow> filter is_pacing evs = []"
proof (induction as arbitrary: w r w' evs)
  case Nil
  then show ?case by auto
next
  case (Cons a as)
  obtain res w1 ev1 where t: "try_body g pcp name a mr w = (res, w1, ev1)"
    by (cases "try_body g pcp name a mr w") auto
  note n = try_body_no_pacing [OF t]
  obtain r2 w2 ev2 where l: "attempts_loop g pcp name mr rd as w1 = (r2, w2, ev2)"
    by (cases "attempts_loop g pcp name mr rd as w1") auto
  from Cons.IH [OF l] Cons.prems t n l show ?case
    by (auto simp: Let_def split: sum.splits exn.splits if_splits)
qed

lemma search_no_pacing:
  "search_by_name_with_retries g pcp name mr rd w = (r, w', evs) \<Longrightarrow> filter is_pacing evs = []"
  by (auto simp: search_by_name_with_retries_def dest: attempts_loop_no_pacing)

lemma batch_loop_pacing:
  "batch_loop g pcp names acc w = (r, w', evs) \<Longrightarrow>
     filter is_pacing evs = replicate (length names) (AsyncSleep PAUSE_BETWEEN_REQUESTS)
     \<and> (names \<noteq> [] \<longrightarrow> last evs = AsyncSleep PAUSE_BETWEEN_REQUESTS)"
proof (induction names arbitrary: acc w r w' evs)
  case Nil
  then show ?case by auto
next
  case (Cons n ns)
  obtain r1 where r1: "fst (search_by_name_with_retries g pcp n 3 5 w) = Inr r1"
    using search_returns [of 5 g pcp n 3 w] by auto
  then obtain w1 ev1 where s: "search_by_name_with_retries g pcp n 3 5 w = (Inr r1, w1, ev1)"
    by (cases "search_by_name_with_retries g pcp n 3 5 w") auto
  note np = search_no_pacing [OF s]
  obtain r2 w2 ev2 where l: "batch_loop g pcp ns (acc @ [r1]) w1 = (r2, w2, ev2)"
    by (cases "batch_loop g pcp ns (acc @ [r1]) w1") auto
  from Cons.IH [OF l] have
    f: "filter is_pacing ev2 = replicate (length ns) (AsyncSleep PAUSE_BETWEEN_REQUESTS)"
    and la: "ns \<noteq> [] \<longrightarrow> last ev2 = AsyncSleep PAUSE_BETWEEN_REQUESTS" by auto
  have e: "evs = ev1 @ [Log INFO ''Pausing for 2.0s.'', AsyncSleep PAUSE_BETWEEN_REQUESTS] @ ev2"
    using Cons.prems s l by simp
  have ne: "ns \<noteq> [] \<Longrightarrow> ev2 \<noteq> []"
    using f by (cases ns) auto
  have em: "ns = [] \<Longrightarrow> ev2 = []"
    using l by auto
  from e f la np ne em show ?case
    by (cases "ns = []") auto
qed

lemma pacing_replicate: "pacing (replicate n (AsyncSleep d)) = of_nat n * d"
  by (induction n) (simp_all add: algebra_simps)

lemma pacing_filter: "pacing (filter is_pacing evs) = pacing evs"
  by (induction evs rule: pacing.induct) simp_all

lemma projected_lookup:
  "k \<in> set keys_to_ensure \<Longrightarrow>
     map_of (dict_set (map (\<lambda>key. (key, dict_get props key)) keys_to_ensure) ''search_term'' v) k
       = Some (dict_get props k)"
  by (auto simp: keys_to_ensure_def)

lemma fetch_defaults:
  assumes "from_cid pcp c (proxies g) w = (Inr (Some obj), w1)" and "to_dict obj = Inr props"
  shows "\<exists>r ev. fetch g pcp name c w = (Inr r, w1, ev) \<and> is_success name r
           \<and> (\<forall>k\<in>set keys_to_ensure.
                 map_of r k = Some (case map_of props k of None \<Rightarrow> PyNone | Some v \<Rightarrow> v))"
proof -
  let ?d = "map (\<lambda>key. (key, dict_get props key)) keys_to_ensure"
  have c: "compound_to_dict (Some obj) = (Some ?d, [])"
    using assms(2) by (simp add: compound_to_dict_def)
  have ne: "?d \<noteq> []" by (simp add: keys_to_ensure_def)
  have k: "map fst ?d = keys_to_ensure" by (simp add: comp_def)
  obtain ev where f: "fetch g pcp name c w = (Inr (dict_set ?d ''search_term'' (PyStr name)), w1, ev)"
    using assms(1) c ne by (simp add: fetch_def Let_def)
  have "\<forall>k\<in>set keys_to_ensure.
          map_of (dict_set ?d ''search_term'' (PyStr name)) k
            = Some (case map_of props k of None \<Rightarrow> PyNone | Some v \<Rightarrow> v)"
    using projected_lookup [of _ props "PyStr name"] by (simp add: dict_get_def)
  with f dict_set_search_term [OF k, of name] show ?thesis by blast
qed

section \<open>The claims\<close>

text \<open>
  C1. For every list of names, every client library and every world,
  \<open>search_compounds_by_name\<close> returns (it never raises) a list of outcomes as long as
  the list of names, and the outcome at each position is the one that the lookup of the
  name at that position returns, run in the world that the lookups of the names before it
  have left; it is a success record or a failure object for that very name. Whatever a
  lookup meets (no identifier, busy answers until the attempts are used up, an exception
  of the fetch or of the search), the names after it are looked up all the same.
\<close>

theorem batch_same_length_same_order:
  "\<exists>rs w' ev. search_compounds_by_name g pcp names w = (Inr rs, w', ev)
     \<and> length rs = length names
     \<and> (\<forall>i<length names.
          fst (search_by_name_with_retries g pcp (names ! i) 3 5
                 (fst (snd (batch_loop g pcp (take i names) [] w)))) = Inr (rs ! i)
          \<and> (is_success (names ! i) (rs ! i) \<or> is_failure (names ! i) (rs ! i)))"
proof -
  obtain rs w' ev where b: "batch_loop g pcp names [] w = (Inr ([] @ rs), w', ev)"
    and l: "length rs = length names"
    using batch_loop_results [of g pcp names "[]" w] by blast
  have "\<forall>i<length names.
          fst (search_by_name_with_retries g pcp (names ! i) 3 5
                 (fst (snd (batch_loop g pcp (take i names) [] w)))) = Inr (rs ! i)
          \<and> (is_success (names ! i) (rs ! i) \<or> is_failure (names ! i) (rs ! i))"
  proof (intro allI impI)
    fix i assume i: "i < length names"
    let ?w = "fst (snd (batch_loop g pcp (take i names) [] w))"
    have n: "fst (search_by_name_with_retries g pcp (names ! i) 3 5 ?w) = Inr (rs ! i)"
      using batch_loop_nth [OF i, of g pcp w rs w' ev] b by simp
    then have "is_success (names ! i) (rs ! i) \<or> is_failure (names ! i) (rs ! i)"
      by (cases "search_by_name_with_retries g pcp (names ! i) 3 5 ?w") (auto dest: search_shape)
    with n show "fst (search_by_name_with_retries g pcp (names ! i) 3 5 ?w) = Inr (rs ! i)
          \<and> (is_success (names ! i) (rs ! i) \<or> is_failure (names ! i) (rs ! i))" by simp
  qed
  with b l show ?thesis
    by (simp add: search_compounds_by_name_def)
qed

theorem batch_same_length_same_order_witness:
  "\<exists>rs w' ev. search_compounds_by_name direct stub [''Aspirin'', ''Unobtainium''] (1, 0) = (Inr rs, w', ev)
     \<and> length rs = 2 \<and> is_success ''Aspirin'' (rs ! 0) \<and> is_failure ''Unobtainium'' (rs ! 1)"
proof -
  obtain rs w' ev where
    1: "search_compounds_by_name direct stub [''Aspirin'', ''Unobtainium''] (1, 0) = (Inr rs, w', ev)"
    and 2: "length rs = length [''Aspirin'', ''Unobtainium'']"
    and 3: "\<forall>i<length [''Aspirin'', ''Unobtainium''].
          fst (search_by_name_with_retries direct stub ([''Aspirin'', ''Unobtainium''] ! i) 3 5
                 (fst (snd (batch_loop direct stub (take i [''Aspirin'', ''Unobtainium'']) [] (1, 0))))) = Inr (rs ! i)
          \<and> (is_success ([''Aspirin'', ''Unobtainium''] ! i) (rs ! i) \<or> is_failure ([''Aspirin'', ''Unobtainium''] ! i) (rs ! i))"
    using batch_same_length_same_order [of direct stub "[''Aspirin'', ''Unobtainium'']" "(1, 0)"] by blast
  from 3 have a: "fst (search_by_name_with_retries direct stub ''Aspirin'' 3 5 (1, 0)) = Inr (rs ! 0)"
    by auto
  have "is_success ''Aspirin''
          (projr (fst (search_by_name_with_retries direct stub ''Aspirin'' 3 5 (1, 0))))"
    by code_simp
  with a have s0: "is_success ''Aspirin'' (rs ! 0)"
    by simp
  from 3 have b: "fst (search_by_name_with_retries direct stub ''Unobtainium'' 3 5
                 (fst (snd (batch_loop direct stub [''Aspirin''] [] (1, 0))))) = Inr (rs ! 1)"
    by auto
  have "is_failure ''Unobtainium''
          (projr (fst (search_by_name_with_retries direct stub ''Unobtainium'' 3 5
                 (fst (snd (batch_loop direct stub [''Aspirin''] [] (1, 0)))))))"
    by code_simp
  with b have s1: "is_failure ''Unobtainium'' (rs ! 1)"
    by simp
  from 1 2 s0 s1 show ?thesis
    by simp
qed

text \<open>
  C2. Take a name and a world in which the first and the second pass through the lookup
  raise a busy \<open>PubChemHTTPError\<close> and the third returns a success record. With
  \<open>max_retries = 3\<close>, \<open>search_by_name_with_retries\<close> returns that record; with
  \<open>max_retries = 2\<close>, in the same world, it returns the failure object of the used-up
  retries, which differs from the not-found object. (Any delay that \<^verbatim>\<open>time.sleep\<close>
  accepts, the default 5 among them.)
\<close>

theorem busy_twice_then_success:
  assumes "attempt_outcome g pcp name w0 = (Inl (PubChemHTTPError m1), w1)" and "is_busy m1"
    and "attempt_outcome g pcp name w1 = (Inl (PubChemHTTPError m2), w2)" and "is_busy m2"
    and "attempt_outcome g pcp name w2 = (Inr r, w3)" and "is_success name r"
    and "0 \<le> retry_delay"
  shows "fst (search_by_name_with_retries g pcp name 3 retry_delay w0) = Inr r
     \<and> fst (search_by_name_with_retries g pcp name 2 retry_delay w0) = Inr (retries_exhausted name 2)
     \<and> is_failure name (retries_exhausted name 2)
     \<and> retries_exhausted name 2 \<noteq> not_found name"
proof -
  have "fst (attempts_loop g pcp name 3 retry_delay [0, 1, 2] w0)
          = fst (attempts_loop g pcp name 3 retry_delay [1, 2] w1)"
    by (rule attempts_loop_busy [OF assms(1,2,7)])
  also have "\<dots> = fst (attempts_loop g pcp name 3 retry_delay [2] w2)"
    by (rule attempts_loop_busy [OF assms(3,4,7)])
  also have "\<dots> = Inr r"
    by (rule attempts_loop_returns_now [OF assms(5)])
  finally have three: "fst (search_by_name_with_retries g pcp name 3 retry_delay w0) = Inr r"
    by (simp add: search_by_name_with_retries_def py_range_3)
  have "fst (attempts_loop g pcp name 2 retry_delay [0, 1] w0)
          = fst (attempts_loop g pcp name 2 retry_delay [1] w1)"
    by (rule attempts_loop_busy [OF assms(1,2,7)])
  also have "\<dots> = fst (attempts_loop g pcp name 2 retry_delay [] w2)"
    by (rule attempts_loop_busy [OF assms(3,4,7)])
  finally have two: "fst (search_by_name_with_retries g pcp name 2 retry_delay w0)
          = Inr (retries_exhausted name 2)"
    by (simp add: search_by_name_with_retries_def py_range_2)
  have "is_failure name (retries_exhausted name 2)"
    by (simp add: retries_exhausted_def failure_is_failure)
  with three two show ?thesis
    by (simp add: exhausted_not_not_found)
qed

theorem busy_twice_then_success_witness:
  "fst (search_by_name_with_retries direct stub ''Aspirin'' 3 5 (2, 0)) =
     Inr [(''cid'', PyInt 2244), (''iupac_name'', PyNone), (''molecular_formula'', PyStr ''C9H8O4''),
          (''molecular_weight'', PyNone), (''monoisotopic_mass'', PyNone), (''synonyms'', PyNone),
          (''charge'', PyInt 0), (''search_term'', PyStr ''Aspirin'')]
   \<and> fst (search_by_name_with_retries direct stub ''Aspirin'' 2 5 (2, 0)) =
     Inr [(''error'', PyStr (''Failed to get data for '' @ sq @ ''Aspirin'' @ sq @ '' after 2 retries.'')),
          (''compound_name'', PyStr ''Aspirin'')]
   \<and> retries_exhausted ''Aspirin'' 2 \<noteq> not_found ''Aspirin''"
proof -
  let ?r = "[(''cid'', PyInt 2244), (''iupac_name'', PyNone), (''molecular_formula'', PyStr ''C9H8O4''),
          (''molecular_weight'', PyNone), (''monoisotopic_mass'', PyNone), (''synonyms'', PyNone),
          (''charge'', PyInt 0), (''search_term'', PyStr ''Aspirin'')]"
  let ?m = "''PUGREST.ServerBusy: 503 Server Busy''"
  have 1: "attempt_outcome direct stub ''Aspirin'' (2, 0) = (Inl (PubChemHTTPError ?m), (1, 0))"
    by code_simp
  have 2: "attempt_outcome direct stub ''Aspirin'' (1, 0) = (Inl (PubChemHTTPError ?m), (0, 0))"
    by code_simp
  have 3: "attempt_outcome direct stub ''Aspirin'' (0, 0) = (Inr ?r, (0, 0))"
    by code_simp
  have 4: "is_busy ?m" by code_simp
  have 5: "is_success ''Aspirin'' ?r" by code_simp
  have 6: "retries_exhausted ''Aspirin'' 2 =
     [(''error'', PyStr (''Failed to get data for '' @ sq @ ''Aspirin'' @ sq @ '' after 2 retries.'')),
          (''compound_name'', PyStr ''Aspirin'')]" by code_simp
  show ?thesis
    using busy_twice_then_success [OF 1 4 2 4 3 5, of 5] 6 by simp
qed

text \<open>
  C3, as stated, fails: the call of \<^verbatim>\<open>Compound.from_cid\<close> stands inside the
  \<^verbatim>\<open>try\<close> block, so a busy error raised by the fetch is handled like one raised by
  the search. In the stub, \<open>Aspirin\<close> resolves to 2244 at once and the first fetch
  raises a busy error: the lookup sleeps 5 seconds, fetches a second time and returns a
  success record, not a failure.
\<close>

theorem fetch_busy_is_retried:
  "fst (resolve direct stub ''Aspirin'' (0, 1)) = Inr (Some 2244)
   \<and> fst (from_cid stub 2244 (proxies direct) (0, 1)) = Inl busy
   \<and> is_success ''Aspirin'' (projr (fst (search_by_name_with_retries direct stub ''Aspirin'' 3 5 (0, 1))))
   \<and> filter is_from_cid (snd (snd (search_by_name_with_retries direct stub ''Aspirin'' 3 5 (0, 1))))
       = [FromCid 2244 None, FromCid 2244 None]
   \<and> filter is_time_sleep (snd (snd (search_by_name_with_retries direct stub ''Aspirin'' 3 5 (0, 1))))
       = [TimeSleep 5]"
  by code_simp

text \<open>
  C3, amended. Take an attempt whose resolution yields a non-zero identifier, followed by
  any number of remaining attempts. If the fetch raises anything but a transient error,
  or returns an object that \<open>compound_to_dict\<close> cannot convert, the lookup returns a
  failure object for the name at once: one fetch, one search, no sleep. If the fetch raises
  a transient error, the handler sleeps \<open>retry_delay\<close> and the loop goes on with the
  remaining attempts, each of which resolves and fetches again.
\<close>

theorem fetch_failure_reporting:
  assumes "resolve g pcp name w = (Inr (Some c), w1, ev1)" and "c \<noteq> 0"
    and "from_cid pcp c (proxies g) w1 = (fr, w2)"
    and "attempts_loop g pcp name max_retries retry_delay (attempt # rest) w = (out, w', evs)"
    and "0 \<le> retry_delay"
  shows "((\<exists>e. fr = Inl e \<and> \<not> is_transient e) \<or> (\<exists>full. fr = Inr full \<and> fst (compound_to_dict full) = None) \<longrightarrow>
            (\<exists>r. out = Inr r \<and> is_failure name r) \<and> w' = w2
            \<and> filter is_from_cid evs = [FromCid c (proxies g)]
            \<and> attempts_made evs = 1 \<and> filter is_time_sleep evs = [])
       \<and> (\<forall>e. fr = Inl e \<and> is_transient e \<longrightarrow>
            (\<exists>ev0 msg ev3. try_body g pcp name attempt max_retries w = (Inl e, w2, ev0)
               \<and> attempts_loop g pcp name max_retries retry_delay rest w2 = (out, w', ev3)
               \<and> evs = ev0 @ [Log WARNING msg, TimeSleep retry_delay] @ ev3))"
proof -
  obtain r2 w3 ev2 where f: "fetch g pcp name c w1 = (r2, w3, ev2)"
    by (cases "fetch g pcp name c w1") auto
  from try_body_resolved [OF assms(1,2) f] obtain l where
    t: "try_body g pcp name attempt max_retries w = (r2, w3, Log INFO l # ev1 @ ev2)"
    by blast
  have fc: "filter is_from_cid (Log INFO l # ev1 @ ev2) = [FromCid c (proxies g)]"
    using resolve_events [OF assms(1)] fetch_events [OF f] by simp
  have one: "(\<exists>r. out = Inr r \<and> is_failure name r) \<and> w' = w2
            \<and> filter is_from_cid evs = [FromCid c (proxies g)]
            \<and> attempts_made evs = 1 \<and> filter is_time_sleep evs = []"
    if h: "(\<exists>e. fr = Inl e \<and> \<not> is_transient e)
           \<or> (\<exists>full. fr = Inr full \<and> fst (compound_to_dict full) = None)"
  proof -
    have r2: "w3 = w2 \<and> (case r2 of Inl e \<Rightarrow> \<not> is_transient e | Inr r \<Rightarrow> is_failure name r)"
      using h
    proof
      assume "\<exists>e. fr = Inl e \<and> \<not> is_transient e"
      then obtain e where "fr = Inl e" "\<not> is_transient e" by blast
      with fetch_raises [of pcp c g w1 e w2 name] assms(3) f show ?thesis by auto
    next
      assume "\<exists>full. fr = Inr full \<and> fst (compound_to_dict full) = None"
      then obtain full where "fr = Inr full" "fst (compound_to_dict full) = None" by blast
      with fetch_unusable [of pcp c g w1 full w2 name] assms(3) f show ?thesis by auto
    qed
    then have "\<not> (\<exists>e. r2 = Inl e \<and> is_transient e)" by auto
    from attempts_loop_final [OF t this assms(4)] r2 fc show ?thesis
      by (auto split: sum.splits)
  qed
  have two: "\<exists>ev0 msg ev3. try_body g pcp name attempt max_retries w = (Inl e, w2, ev0)
               \<and> attempts_loop g pcp name max_retries retry_delay rest w2 = (out, w', ev3)
               \<and> evs = ev0 @ [Log WARNING msg, TimeSleep retry_delay] @ ev3"
    if h: "fr = Inl e \<and> is_transient e" for e
  proof -
    from h fetch_raises [of pcp c g w1 e w2 name] assms(3) f have "r2 = Inl e" "w3 = w2" by auto
    with t have t': "try_body g pcp name attempt max_retries w = (Inl e, w2, Log INFO l # ev1 @ ev2)"
      by simp
    from attempts_loop_transient [OF assms(5) t' _ assms(4)] h t' show ?thesis by blast
  qed
  from one two show ?thesis by blast
qed


theorem fetch_failure_reporting_witness:
  "fst (resolve direct stub ''Phantom'' (0, 0)) = Inr (Some 5)
   \<and> fst (compound_to_dict (Some broken)) = None
   \<and> is_failure ''Phantom'' (projr (fst (attempts_loop direct stub ''Phantom'' 3 5 [0, 1, 2] (0, 0))))
   \<and> filter is_from_cid (snd (snd (attempts_loop direct stub ''Phantom'' 3 5 [0, 1, 2] (0, 0))))
      = [FromCid 5 None]
   \<and> attempts_made (snd (snd (attempts_loop direct stub ''Phantom'' 3 5 [0, 1, 2] (0, 0)))) = 1"
proof -
  let ?r = "resolve direct stub ''Phantom'' (0, 0)"
  let ?l = "attempts_loop direct stub ''Phantom'' 3 5 [0, 1, 2] (0, 0)"
  have r1: "fst ?r = Inr (Some 5)" by code_simp
  then have r: "?r = (Inr (Some 5), fst (snd ?r), snd (snd ?r))"
    by (metis prod.collapse)
  have w: "fst (snd ?r) = (0, 0)" by code_simp
  have f: "from_cid stub 5 (proxies direct) (fst (snd ?r)) = (Inr (Some broken), (0, 0))"
    unfolding w by code_simp
  have u: "fst (compound_to_dict (Some broken)) = None" by code_simp
  have l: "?l = (fst ?l, fst (snd ?l), snd (snd ?l))" by simp
  have p: "proxies direct = None" by (simp add: direct_def)
  have c: "(5::int) \<noteq> 0" and d: "(0::int) \<le> 5" by simp_all
  from fetch_failure_reporting [OF r c f l d] u r1 p show ?thesis
    by auto
qed

text \<open>
  C4. Take any attempt of the loop of \<open>search_by_name_with_retries\<close>, with \<open>rest\<close>
  the attempts after it, and a delay that \<^verbatim>\<open>time.sleep\<close> accepts. A further
  attempt is made if and only if this one raises a transient error (a
  \<open>PubChemHTTPError\<close> whose text contains \<open>Server Busy\<close> or \<open>503\<close>) and attempts
  remain; it is then made after a sleep of \<open>retry_delay\<close> seconds, and every sleep of the
  loop has that length. Any other exception, and any returned dictionary, ends the loop at
  once: no further search, no sleep, and the result is a failure object for an exception
  and the returned dictionary otherwise; a name without identifier in either domain
  returns the not-found object after one attempt. The attempts made never exceed the
  attempts available, \<open>max_retries\<close> for the whole lookup.
\<close>

theorem retry_iff_transient:
  assumes "0 \<le> retry_delay"
    and "try_body g pcp name attempt max_retries w = (res, w1, ev1)"
    and "attempts_loop g pcp name max_retries retry_delay (attempt # rest) w = (out, w', evs)"
  shows "(1 < attempts_made evs \<longleftrightarrow> (\<exists>e. res = Inl e \<and> is_transient e) \<and> rest \<noteq> [])
     \<and> ((\<exists>e. res = Inl e \<and> is_transient e) \<longrightarrow>
          (\<exists>msg ev3. attempts_loop g pcp name max_retries retry_delay rest w1 = (out, w', ev3)
             \<and> evs = ev1 @ [Log WARNING msg, TimeSleep retry_delay] @ ev3))
     \<and> (\<not> (\<exists>e. res = Inl e \<and> is_transient e) \<longrightarrow>
          w' = w1 \<and> attempts_made evs = 1 \<and> filter is_time_sleep evs = []
          \<and> (evs = ev1 \<or> (\<exists>msg. evs = ev1 @ [Log ERROR msg]))
          \<and> (\<exists>r. out = Inr r \<and> (case res of Inr r' \<Rightarrow> r = r' | Inl e \<Rightarrow> is_failure name r)))
     \<and> (\<forall>c. fst (resolve g pcp name w) = Inr c \<and> \<not> truthy c \<longrightarrow>
          out = Inr (not_found name) \<and> attempts_made evs = 1)
     \<and> attempts_made evs \<le> length (attempt # rest)
     \<and> (\<forall>e\<in>set evs. is_time_sleep e \<longrightarrow> e = TimeSleep retry_delay)
     \<and> attempts_made (snd (snd (search_by_name_with_retries g pcp name max_retries retry_delay w)))
          \<le> nat max_retries"
proof -
  note n = try_body_events [OF assms(2)]
  have transient: "\<exists>msg ev3. attempts_loop g pcp name max_retries retry_delay rest w1 = (out, w', ev3)
             \<and> evs = ev1 @ [Log WARNING msg, TimeSleep retry_delay] @ ev3"
    if "\<exists>e. res = Inl e \<and> is_transient e"
  proof -
    from that obtain e where e: "res = Inl e" "is_transient e" by blast
    from assms(2) e(1) have "try_body g pcp name attempt max_retries w = (Inl e, w1, ev1)"
      by simp
    from attempts_loop_transient [OF assms(1) this e(2) assms(3)] show ?thesis .
  qed
  have final: "w' = w1 \<and> attempts_made evs = 1 \<and> filter is_time_sleep evs = []
          \<and> (evs = ev1 \<or> (\<exists>msg. evs = ev1 @ [Log ERROR msg]))
          \<and> (\<exists>r. out = Inr r \<and> (case res of Inr r' \<Rightarrow> r = r' | Inl e \<Rightarrow> is_failure name r))"
    if "\<not> (\<exists>e. res = Inl e \<and> is_transient e)"
    by (rule attempts_loop_final [OF assms(2) that assms(3)])
  have more: "1 < attempts_made evs \<longleftrightarrow> (\<exists>e. res = Inl e \<and> is_transient e) \<and> rest \<noteq> []"
  proof (cases "\<exists>e. res = Inl e \<and> is_transient e")
    case False
    with final show ?thesis by simp
  next
    case True
    from transient [OF True] obtain msg ev3 where
      l: "attempts_loop g pcp name max_retries retry_delay rest w1 = (out, w', ev3)"
      and e: "evs = ev1 @ [Log WARNING msg, TimeSleep retry_delay] @ ev3"
      by blast
    show ?thesis
    proof (cases rest)
      case Nil
      with l e n True show ?thesis by (auto simp: attempts_made_def)
    next
      case (Cons b bs)
      from l have "attempts_loop g pcp name max_retries retry_delay (b # bs) w1 = (out, w', ev3)"
        unfolding Cons .
      then have "1 \<le> attempts_made ev3"
        by (rule attempts_loop_first)
      with e n True Cons show ?thesis by (auto simp: attempts_made_def)
    qed
  qed
  have nf: "out = Inr (not_found name) \<and> attempts_made evs = 1"
    if "fst (resolve g pcp name w) = Inr c \<and> \<not> truthy c" for c
  proof -
    from that have "res = Inr (not_found name)"
      using try_body_not_found [of g pcp name w c attempt max_retries] assms(2) by simp
    with final show ?thesis by auto
  qed
  from transient final more nf attempts_loop_bound [OF assms(3)] attempts_loop_sleeps [OF assms(3)]
    search_attempts_bound [of g pcp name max_retries retry_delay w]
  show ?thesis by blast
qed

theorem retry_iff_transient_witness:
  "fst (try_body direct stub ''Aspirin'' 0 3 (1, 0)) = Inl busy \<and> is_transient busy
   \<and> 1 < attempts_made (snd (snd (attempts_loop direct stub ''Aspirin'' 3 5 [0, 1, 2] (1, 0))))
   \<and> attempts_made (snd (snd (attempts_loop direct stub ''Aspirin'' 3 5 [0, 1, 2] (1, 0)))) \<le> 3"
proof -
  let ?t = "try_body direct stub ''Aspirin'' 0 3 (1, 0)"
  let ?l = "attempts_loop direct stub ''Aspirin'' 3 5 [0, 1, 2] (1, 0)"
  have d: "(0::int) \<le> 5" by simp
  have t: "?t = (fst ?t, fst (snd ?t), snd (snd ?t))" by simp
  have l: "?l = (fst ?l, fst (snd ?l), snd (snd ?l))" by simp
  have b: "fst ?t = Inl busy" by code_simp
  have tr: "is_transient busy" by code_simp
  from retry_iff_transient [OF d t l] b tr show ?thesis
    by auto
qed

text \<open>
  C5. If the compound-domain search answers with a list whose first compound has a
  populated identifier (the attribute exists and holds a non-zero integer, which is what
  the program tests), then in that attempt the resolver returns this identifier, the
  full record is fetched for it, and no substance-domain search is issued.
\<close>

theorem primary_identifier_skips_substance:
  assumes "get_compounds pcp name (proxies g) w = (Inr (c # cs), w1)"
    and "has_cid c" and "cid c = Some n" and "n \<noteq> 0"
  shows "\<exists>r w' ev. try_body g pcp name attempt max_retries w = (r, w', ev)
           \<and> fst (resolve g pcp name w) = Inr (Some n)
           \<and> filter is_get_cids ev = []
           \<and> filter is_from_cid ev = [FromCid n (proxies g)]"
proof -
  let ?l = "Log INFO (''   -> Attempt 1: Searching in '' @ sq @ ''Compound'' @ sq @ '' domain'')"
  have r: "resolve g pcp name w = (Inr (Some n), w1, [?l, GetCompounds name (proxies g)])"
    using assms by (simp add: resolve_def primary_cid_def truthy_def)
  obtain r2 w2 ev2 where f: "fetch g pcp name n w1 = (r2, w2, ev2)"
    by (cases "fetch g pcp name n w1") auto
  from try_body_resolved [OF r assms(4) f] obtain msg where
    "try_body g pcp name attempt max_retries w
       = (r2, w2, Log INFO msg # [?l, GetCompounds name (proxies g)] @ ev2)"
    by blast
  with r fetch_events [OF f] show ?thesis by simp
qed

theorem primary_identifier_skips_substance_witness:
  "fst (resolve direct stub ''Aspirin'' (0, 0)) = Inr (Some 2244)
   \<and> filter is_get_cids (snd (snd (try_body direct stub ''Aspirin'' 0 3 (0, 0)))) = []
   \<and> filter is_from_cid (snd (snd (try_body direct stub ''Aspirin'' 0 3 (0, 0)))) = [FromCid 2244 None]"
proof -
  have 1: "get_compounds stub ''Aspirin'' (proxies direct) (0, 0) = (Inr (aspirin # []), (0, 0))"
    by code_simp
  have 2: "has_cid aspirin" and 3: "cid aspirin = Some 2244" by (simp_all add: aspirin_def)
  have 4: "(2244::int) \<noteq> 0" by simp
  have p: "proxies direct = None" by (simp add: direct_def)
  from primary_identifier_skips_substance [OF 1 2 3 4, of 0 3] p show ?thesis
    by auto
qed

text \<open>
  C6, as stated, fails: the program looks at the first substance entry only. For
  \<open>Mixture\<close> the compound domain answers nothing and the substance domain answers
  two entries, the second with the identifier list \<open>[2244]\<close>, the first without one:
  there is an entry with a non-empty identifier list, and the lookup still returns the
  not-found object.
\<close>

theorem substance_later_entry_ignored:
  "fst (get_compounds stub ''Mixture'' (proxies direct) (0, 0)) = Inr []
   \<and> fst (get_cids stub ''Mixture'' (proxies direct) (0, 0))
       = Inr [\<lparr>SID = Some 7, CID = None\<rparr>, \<lparr>SID = Some 8, CID = Some [2244]\<rparr>]
   \<and> fst (resolve direct stub ''Mixture'' (0, 0)) = Inr None
   \<and> fst (search_by_name_with_retries direct stub ''Mixture'' 3 5 (0, 0)) = Inr (not_found ''Mixture'')"
  by code_simp

text \<open>
  C6, amended. If the compound-domain search yields no identifier, the resolver queries
  the substance domain (once), and whenever the first entry of its answer has an
  identifier list that starts with a non-zero identifier, the resolver takes that
  identifier: it is what the attempt fetches, and the attempt does not return the
  not-found object.
\<close>

theorem substance_first_entry_resolves:
  assumes "get_compounds pcp name (proxies g) w = (Inr compounds, w1)"
    and "primary_cid compounds = None"
    and "get_cids pcp name (proxies g) w1 = (Inr (first_result # others), w2)"
    and "CID first_result = Some (n # ns)" and "n \<noteq> 0"
  shows "\<exists>r w' ev. try_body g pcp name attempt max_retries w = (r, w', ev)
           \<and> fst (resolve g pcp name w) = Inr (Some n)
           \<and> filter is_get_cids ev = [GetCids name (proxies g)]
           \<and> filter is_from_cid ev = [FromCid n (proxies g)]
           \<and> r \<noteq> Inr (not_found name)"
proof -
  obtain ev1 where r: "resolve g pcp name w = (Inr (Some n), w2, ev1)"
    and g1: "filter is_get_cids ev1 = [GetCids name (proxies g)]"
    using assms by (simp add: resolve_def substance_cid_def truthy_def)
  obtain r2 w3 ev2 where f: "fetch g pcp name n w2 = (r2, w3, ev2)"
    by (cases "fetch g pcp name n w2") auto
  have "r2 \<noteq> Inr (not_found name)"
    using fetch_not_not_found [of g pcp name n w2] f by simp
  moreover
  from try_body_resolved [OF r assms(5) f] obtain msg where
    "try_body g pcp name attempt max_retries w = (r2, w3, Log INFO msg # ev1 @ ev2)"
    by blast
  ultimately show ?thesis
    using r g1 fetch_events [OF f] resolve_events [OF r] by simp
qed

theorem substance_first_entry_resolves_witness:
  "fst (resolve direct stub ''Acetylsalicylic acid'' (0, 0)) = Inr (Some 2244)
   \<and> filter is_from_cid (snd (snd (try_body direct stub ''Acetylsalicylic acid'' 0 3 (0, 0))))
       = [FromCid 2244 None]
   \<and> fst (try_body direct stub ''Acetylsalicylic acid'' 0 3 (0, 0))
       \<noteq> Inr (not_found ''Acetylsalicylic acid'')"
proof -
  have 1: "get_compounds stub ''Acetylsalicylic acid'' (proxies direct) (0, 0) = (Inr [], (0, 0))"
    by code_simp
  have 2: "primary_cid [] = None" by (simp add: primary_cid_def)
  have 3: "get_cids stub ''Acetylsalicylic acid'' (proxies direct) (0, 0)
             = (Inr (\<lparr>SID = Some 1, CID = Some [2244, 5]\<rparr> # []), (0, 0))"
    by code_simp
  have 4: "CID \<lparr>SID = Some 1, CID = Some [2244, 5]\<rparr> = Some (2244 # [5])" by simp
  have 5: "(2244::int) \<noteq> 0" by simp
  have p: "proxies direct = None" by (simp add: direct_def)
  from substance_first_entry_resolves [OF 1 2 3 4 5, of 0 3] p show ?thesis
    by auto
qed

text \<open>
  C7. If the proxy setting is off (\<open>use_proxy\<close> is false or missing, or there is no
  \<^verbatim>\<open>config.ini\<close> yet), whatever the proxy type, host and port say: start-up ends with
  \<open>proxies = None\<close> and has issued no request, and then every event of every lookup, for
  any client library, names and world, carries no proxy configuration; this covers the
  compound-domain search, the substance-domain search and the full-record fetch, in a
  batch and in a single lookup with any retry settings.
\<close>

theorem no_proxy_when_disabled:
  assumes "\<not> read_use_proxy config_file"
  shows "\<exists>g ev0. startup config_file check = (Inr g, ev0)
           \<and> proxies g = None
           \<and> filter is_request ev0 = []
           \<and> (\<forall>pcp names w e. e \<in> set (snd (snd (search_compounds_by_name g pcp names (w::'w))))
                 \<longrightarrow> proxies_of e = None)
           \<and> (\<forall>pcp name max_retries retry_delay w e.
                 e \<in> set (snd (snd (search_by_name_with_retries g pcp name max_retries retry_delay (w::'w))))
                 \<longrightarrow> proxies_of e = None)"
proof -
  let ?g = "\<lparr>USE_PROXY = False, proxies = None, CONNECTION_TYPE = ''Direct''\<rparr>"
  obtain ev0 where s: "startup config_file check = (Inr ?g, ev0)" and q: "filter is_request ev0 = []"
    using assms by (cases config_file) (simp_all add: startup_def)
  have batch: "proxies_of e = None"
    if "e \<in> set (snd (snd (search_compounds_by_name ?g pcp names w)))"
    for pcp :: "'w pubchem" and names w e
    using search_compounds_proxies [OF that] by (cases "is_request e") (auto elim: is_request.elims)
  have single: "proxies_of e = None"
    if "e \<in> set (snd (snd (search_by_name_with_retries ?g pcp name mr rd w)))"
    for pcp :: "'w pubchem" and name mr rd w e
  proof (cases "is_request e")
    case True
    obtain r w' evs where l: "attempts_loop ?g pcp name mr rd (py_range mr) w = (r, w', evs)"
      by (cases "attempts_loop ?g pcp name mr rd (py_range mr) w") auto
    from attempts_loop_proxies [OF l] that l True show ?thesis
      by (simp add: search_by_name_with_retries_def)
  next
    case False
    then show ?thesis by (auto elim: is_request.elims)
  qed
  from s q batch single show ?thesis
    by (intro exI [of _ ?g] exI [of _ ev0]) simp
qed

theorem no_proxy_when_disabled_witness:
  "\<not> read_use_proxy (Some (tor_config\<lparr>use_proxy := Some False\<rparr>))
   \<and> fst (startup (Some (tor_config\<lparr>use_proxy := Some False\<rparr>)) unreachable) = Inr direct
   \<and> filter is_request (snd (startup (Some (tor_config\<lparr>use_proxy := Some False\<rparr>)) unreachable)) = []
   \<and> proxies_of (GetCompounds ''Aspirin'' None) = None
   \<and> GetCompounds ''Aspirin'' None
        \<in> set (snd (snd (search_compounds_by_name direct stub [''Aspirin''] (0, 0))))"
proof -
  let ?c = "Some (tor_config\<lparr>use_proxy := Some False\<rparr>)"
  have h: "\<not> read_use_proxy ?c" by code_simp
  have d: "fst (startup ?c unreachable) = Inr direct" by code_simp
  have m: "GetCompounds ''Aspirin'' None
             \<in> set (snd (snd (search_compounds_by_name direct stub [''Aspirin''] (0, 0))))"
    by code_simp
  from no_proxy_when_disabled [OF h, of unreachable] h d m show ?thesis
    by auto
qed

text \<open>
  C8. For every list of names, client library and world, the batch performs exactly one
  \<^verbatim>\<open>asyncio.sleep(2.0)\<close> per name, whatever the lookups return: the pacing it asks
  for adds up to 2 seconds times the number of names, hence to at least 4 seconds for 3
  names. The pauses stand between the names: however the list is cut into the names
  already processed (at least one) and the names still to come, the last event before the
  first lookup of the names to come is the pause of 2 seconds. (The model counts the
  seconds the program asks to sleep; a sleep lasts at least that long.)
\<close>

theorem pacing_between_names:
  "\<exists>rs w' evs. search_compounds_by_name g pcp names w = (Inr rs, w', evs)
     \<and> filter is_pacing evs = replicate (length names) (AsyncSleep 2)
     \<and> pacing evs = 2 * of_nat (length names)
     \<and> (length names = 3 \<longrightarrow> 4 \<le> pacing evs)
     \<and> (\<forall>xs ys. names = xs @ ys \<and> xs \<noteq> [] \<longrightarrow>
           (\<exists>r1 w1 e1 e2 l. batch_loop g pcp xs [] w = (Inr r1, w1, e1)
              \<and> last e1 = AsyncSleep 2
              \<and> batch_loop g pcp ys r1 w1 = (Inr rs, w', e2)
              \<and> evs = l # e1 @ e2 @ log_results_to_file rs))"
proof -
  obtain rs w' ev where b: "batch_loop g pcp names [] w = (Inr ([] @ rs), w', ev)"
    using batch_loop_results [of g pcp names "[]" w] by blast
  let ?l = "Log INFO (''Initiating SMART and SEQUENTIAL search for '' @ str_int (int (length names))
                           @ '' compounds...'')"
  let ?evs = "?l # ev @ log_results_to_file rs"
  have s: "search_compounds_by_name g pcp names w = (Inr rs, w', ?evs)"
    using b by (simp add: search_compounds_by_name_def)
  have f: "filter is_pacing ?evs = replicate (length names) (AsyncSleep 2)"
    using batch_loop_pacing [OF b]
    by (simp add: log_results_to_file_def PAUSE_BETWEEN_REQUESTS_def)
  have "pacing ?evs = pacing (filter is_pacing ?evs)"
    by (simp only: pacing_filter)
  also have "\<dots> = 2 * of_nat (length names)"
    by (simp only: f pacing_replicate)
  finally have p: "pacing ?evs = 2 * of_nat (length names)" .
  have split: "\<exists>r1 w1 e1 e2 l. batch_loop g pcp xs [] w = (Inr r1, w1, e1)
              \<and> last e1 = AsyncSleep 2
              \<and> batch_loop g pcp ys r1 w1 = (Inr rs, w', e2)
              \<and> ?evs = l # e1 @ e2 @ log_results_to_file rs"
    if "names = xs @ ys \<and> xs \<noteq> []" for xs ys
  proof -
    obtain r1 w1 e1 where 1: "batch_loop g pcp xs [] w = (Inr ([] @ r1), w1, e1)"
      using batch_loop_results [of g pcp xs "[]" w] by blast
    obtain r2 w2 e2 where 2: "batch_loop g pcp ys r1 w1 = (r2, w2, e2)"
      by (cases "batch_loop g pcp ys r1 w1") auto
    from b that 1 2 have "r2 = Inr rs" "w2 = w'" "ev = e1 @ e2"
      by (simp_all add: batch_loop_append)
    moreover have "last e1 = AsyncSleep 2"
      using batch_loop_pacing [OF 1] that by (simp add: PAUSE_BETWEEN_REQUESTS_def)
    ultimately show ?thesis
      using 1 2 by simp
  qed
  from p have three: "length names = 3 \<longrightarrow> 4 \<le> pacing ?evs" by simp
  have all: "\<forall>xs ys. names = xs @ ys \<and> xs \<noteq> [] \<longrightarrow>
           (\<exists>r1 w1 e1 e2 l. batch_loop g pcp xs [] w = (Inr r1, w1, e1)
              \<and> last e1 = AsyncSleep 2
              \<and> batch_loop g pcp ys r1 w1 = (Inr rs, w', e2)
              \<and> ?evs = l # e1 @ e2 @ log_results_to_file rs)"
    using split by (intro allI impI)
  show ?thesis
    by (intro exI [of _ rs] exI [of _ w'] exI [of _ ?evs] conjI) (rule s f p three all)+
qed


theorem pacing_between_names_witness:
  "length [''Aspirin'', ''Unobtainium'', ''Phantom''] = 3
   \<and> 4 \<le> pacing (snd (snd (search_compounds_by_name direct stub [''Aspirin'', ''Unobtainium'', ''Phantom''] (1, 1))))
   \<and> filter is_pacing (snd (snd (search_compounds_by_name direct stub [''Aspirin'', ''Unobtainium'', ''Phantom''] (1, 1))))
        = [AsyncSleep 2, AsyncSleep 2, AsyncSleep 2]"
proof -
  let ?names = "[''Aspirin'', ''Unobtainium'', ''Phantom'']"
  let ?run = "search_compounds_by_name direct stub ?names (1, 1)"
  have l: "length ?names = 3" by simp
  have r: "replicate (length ?names) (AsyncSleep 2) = [AsyncSleep 2, AsyncSleep 2, AsyncSleep 2]"
    by (simp add: numeral_3_eq_3)
  from pacing_between_names [of direct stub ?names "(1, 1)"]
  obtain rs w' evs where s: "?run = (Inr rs, w', evs)"
    and f: "filter is_pacing evs = replicate (length ?names) (AsyncSleep 2)"
    and t: "length ?names = 3 \<longrightarrow> 4 \<le> pacing evs"
    by (elim exE conjE)
  from s have e: "snd (snd ?run) = evs" by (simp only: snd_conv)
  from t l have "4 \<le> pacing evs" by (rule mp)
  with f show ?thesis
    unfolding e r using l by (intro conjI)
qed

text \<open>
  C9. Every outcome that \<open>search_compounds_by_name\<close> returns has exactly one of two
  shapes: a success record, whose keys are the seven canonical keys followed by
  \<open>search_term\<close>, which holds the queried name, and which has no \<open>error\<close> key; or a
  failure object, whose keys are \<open>error\<close>, holding a text, and \<open>compound_name\<close>,
  holding the queried name. And whenever the fetched object converts to a property
  dictionary, whatever keys that dictionary has or lacks, the fetch returns a success
  record in which each canonical key holds the upstream value, or \<open>None\<close> where upstream
  has no such key.
\<close>

theorem outcome_shapes:
  "\<exists>rs w' evs. search_compounds_by_name g pcp names w = (Inr rs, w', evs)
     \<and> length rs = length names
     \<and> (\<forall>i<length names.
           (is_success (names ! i) (rs ! i) \<and> \<not> is_failure (names ! i) (rs ! i))
           \<or> (is_failure (names ! i) (rs ! i) \<and> \<not> is_success (names ! i) (rs ! i)))
     \<and> (\<forall>name c w0 obj w1 props.
           from_cid pcp c (proxies g) w0 = (Inr (Some obj), w1) \<and> to_dict obj = Inr props \<longrightarrow>
           (\<exists>r ev. fetch g pcp name c w0 = (Inr r, w1, ev) \<and> is_success name r
              \<and> (\<forall>k\<in>set keys_to_ensure.
                    map_of r k = Some (case map_of props k of None \<Rightarrow> PyNone | Some v \<Rightarrow> v))))"
proof -
  obtain rs w' ev where b: "batch_loop g pcp names [] w = (Inr ([] @ rs), w', ev)"
    and l: "length rs = length names"
    using batch_loop_results [of g pcp names "[]" w] by blast
  let ?l = "Log INFO (''Initiating SMART and SEQUENTIAL search for '' @ str_int (int (length names))
                           @ '' compounds...'')"
  let ?evs = "?l # ev @ log_results_to_file rs"
  have s: "search_compounds_by_name g pcp names w = (Inr rs, w', ?evs)"
    using b by (simp add: search_compounds_by_name_def)
  have shapes: "\<forall>i<length names.
           (is_success (names ! i) (rs ! i) \<and> \<not> is_failure (names ! i) (rs ! i))
           \<or> (is_failure (names ! i) (rs ! i) \<and> \<not> is_success (names ! i) (rs ! i))"
  proof (intro allI impI)
    fix i assume i: "i < length names"
    let ?w = "fst (snd (batch_loop g pcp (take i names) [] w))"
    have "fst (search_by_name_with_retries g pcp (names ! i) 3 5 ?w) = Inr (rs ! i)"
      using batch_loop_nth [OF i, of g pcp w rs w' ev] b by simp
    then have "is_success (names ! i) (rs ! i) \<or> is_failure (names ! i) (rs ! i)"
      by (cases "search_by_name_with_retries g pcp (names ! i) 3 5 ?w") (auto dest: search_shape)
    then show "(is_success (names ! i) (rs ! i) \<and> \<not> is_failure (names ! i) (rs ! i))
           \<or> (is_failure (names ! i) (rs ! i) \<and> \<not> is_success (names ! i) (rs ! i))"
      using success_not_failure [of "names ! i" "rs ! i"] by blast
  qed
  have defaults: "\<forall>name c w0 obj w1 props.
           from_cid pcp c (proxies g) w0 = (Inr (Some obj), w1) \<and> to_dict obj = Inr props \<longrightarrow>
           (\<exists>r ev. fetch g pcp name c w0 = (Inr r, w1, ev) \<and> is_success name r
              \<and> (\<forall>k\<in>set keys_to_ensure.
                    map_of r k = Some (case map_of props k of None \<Rightarrow> PyNone | Some v \<Rightarrow> v)))"
    using fetch_defaults by (intro allI impI) (elim conjE)
  show ?thesis
    by (intro exI [of _ rs] exI [of _ w'] exI [of _ ?evs] conjI) (rule s l shapes defaults)+
qed

theorem outcome_shapes_witness:
  "(\<exists>rs w' evs. search_compounds_by_name direct stub [''Aspirin'', ''Phantom''] (0, 0) = (Inr rs, w', evs)
      \<and> length rs = 2
      \<and> is_success ''Aspirin'' (rs ! 0) \<and> is_failure ''Phantom'' (rs ! 1))
   \<and> map_of (projr (fst (fetch direct stub ''Aspirin'' 2244 (0, 0)))) ''iupac_name'' = Some PyNone
   \<and> map_of (projr (fst (fetch direct stub ''Aspirin'' 2244 (0, 0)))) ''molecular_formula''
        = Some (PyStr ''C9H8O4'')"
proof -
  let ?names = "[''Aspirin'', ''Phantom'']"
  let ?props = "[(''charge'', PyInt 0), (''cid'', PyInt 2244), (''molecular_formula'', PyStr ''C9H8O4'')]"
  from outcome_shapes [of direct stub ?names "(0, 0)"]
  obtain rs w' evs where s: "search_compounds_by_name direct stub ?names (0, 0) = (Inr rs, w', evs)"
    and l: "length rs = length ?names"
    and sh: "\<forall>i<length ?names.
           (is_success (?names ! i) (rs ! i) \<and> \<not> is_failure (?names ! i) (rs ! i))
           \<or> (is_failure (?names ! i) (rs ! i) \<and> \<not> is_success (?names ! i) (rs ! i))"
    and d: "\<forall>name c w0 obj w1 props.
           from_cid stub c (proxies direct) w0 = (Inr (Some obj), w1) \<and> to_dict obj = Inr props \<longrightarrow>
           (\<exists>r ev. fetch direct stub name c w0 = (Inr r, w1, ev) \<and> is_success name r
              \<and> (\<forall>k\<in>set keys_to_ensure.
                    map_of r k = Some (case map_of props k of None \<Rightarrow> PyNone | Some v \<Rightarrow> v)))"
    by (elim exE conjE)
  have r0: "fst (search_compounds_by_name direct stub ?names (0, 0))
      = Inr [[(''cid'', PyInt 2244), (''iupac_name'', PyNone), (''molecular_formula'', PyStr ''C9H8O4''),
          (''molecular_weight'', PyNone), (''monoisotopic_mass'', PyNone), (''synonyms'', PyNone),
          (''charge'', PyInt 0), (''search_term'', PyStr ''Aspirin'')],
          [(''error'', PyStr (''Could not process full record for '' @ sq @ ''Phantom'' @ sq @ '' (CID: 5).'')),
           (''compound_name'', PyStr ''Phantom'')]]"
    by code_simp
  have a: "\<not> is_failure ''Aspirin'' (rs ! 0)" and p: "\<not> is_success ''Phantom'' (rs ! 1)"
    using r0 s by (simp_all add: is_failure_def is_success_def keys_to_ensure_def)
  from sh have "(is_success ''Aspirin'' (rs ! 0) \<and> \<not> is_failure ''Aspirin'' (rs ! 0))
           \<or> (is_failure ''Aspirin'' (rs ! 0) \<and> \<not> is_success ''Aspirin'' (rs ! 0))"
    by (drule_tac x = 0 in spec) simp
  with a have s0: "is_success ''Aspirin'' (rs ! 0)" by simp
  from sh have "(is_success ''Phantom'' (rs ! 1) \<and> \<not> is_failure ''Phantom'' (rs ! 1))
           \<or> (is_failure ''Phantom'' (rs ! 1) \<and> \<not> is_success ''Phantom'' (rs ! 1))"
    by (drule_tac x = 1 in spec) simp
  with p have s1: "is_failure ''Phantom'' (rs ! 1)" by simp
  have f: "from_cid stub 2244 (proxies direct) (0, 0) = (Inr (Some aspirin), (0, 0))
           \<and> to_dict aspirin = Inr ?props"
    by (simp add: stub_def aspirin_def)
  from d have "from_cid stub 2244 (proxies direct) (0, 0) = (Inr (Some aspirin), (0, 0))
           \<and> to_dict aspirin = Inr ?props \<longrightarrow>
           (\<exists>r ev. fetch direct stub ''Aspirin'' 2244 (0, 0) = (Inr r, (0, 0), ev) \<and> is_success ''Aspirin'' r
              \<and> (\<forall>k\<in>set keys_to_ensure.
                    map_of r k = Some (case map_of ?props k of None \<Rightarrow> PyNone | Some v \<Rightarrow> v)))"
    by (elim allE)
  from this f have "\<exists>r ev. fetch direct stub ''Aspirin'' 2244 (0, 0) = (Inr r, (0, 0), ev) \<and> is_success ''Aspirin'' r
              \<and> (\<forall>k\<in>set keys_to_ensure.
                    map_of r k = Some (case map_of ?props k of None \<Rightarrow> PyNone | Some v \<Rightarrow> v))"
    by (rule mp)
  then obtain r ev where fr: "fetch direct stub ''Aspirin'' 2244 (0, 0) = (Inr r, (0, 0), ev)"
    and fk: "\<forall>k\<in>set keys_to_ensure.
                    map_of r k = Some (case map_of ?props k of None \<Rightarrow> PyNone | Some v \<Rightarrow> v)"
    by (elim exE conjE)
  from fk have "map_of r ''iupac_name'' = Some PyNone"
    and "map_of r ''molecular_formula'' = Some (PyStr ''C9H8O4'')"
    by (simp_all add: keys_to_ensure_def)
  with fr have v: "map_of (projr (fst (fetch direct stub ''Aspirin'' 2244 (0, 0)))) ''iupac_name'' = Some PyNone"
    "map_of (projr (fst (fetch direct stub ''Aspirin'' 2244 (0, 0)))) ''molecular_formula''
        = Some (PyStr ''C9H8O4'')"
    by simp_all
  from s l s0 s1 have "\<exists>rs w' evs. search_compounds_by_name direct stub ?names (0, 0) = (Inr rs, w', evs)
      \<and> length rs = 2
      \<and> is_success ''Aspirin'' (rs ! 0) \<and> is_failure ''Phantom'' (rs ! 1)"
    by (intro exI [of _ rs] exI [of _ w'] exI [of _ evs]) simp
  with v show ?thesis by (intro conjI)
qed

text \<open>
  C10. If the proxy is switched on and the check request fails with a
  \<^verbatim>\<open>RequestException\<close> (timeout, refused connection, unsupported scheme, or an error
  status), start-up logs a critical message and still completes: the globals hold the
  configured proxies, every later batch returns its outcomes, and every request of those
  batches carries the configured proxies.
\<close>

theorem proxy_check_failure_not_fatal:
  assumes "use_proxy config = Some True" and "check_fails (check (proxy_dict_of config))"
  shows "\<exists>g ev0. startup (Some config) check = (Inr g, ev0)
           \<and> USE_PROXY g \<and> proxies g = Some (proxy_dict_of config)
           \<and> (\<exists>msg. Log CRITICAL msg \<in> set ev0)
           \<and> (\<forall>pcp names w. \<exists>rs. fst (search_compounds_by_name g pcp names (w::'w)) = Inr rs)
           \<and> (\<forall>pcp names w e. e \<in> set (snd (snd (search_compounds_by_name g pcp names (w::'w))))
                 \<and> is_request e \<longrightarrow> proxies_of e = Some (proxy_dict_of config))"
proof -
  let ?g = "\<lparr>USE_PROXY = True, proxies = Some (proxy_dict_of config),
             CONNECTION_TYPE = ''Proxy '' @ upper (checked_proxy_type config) @ '' ('' @ proxy_url config @ '')''\<rparr>"
  from assms(2) obtain ev0 where s: "startup (Some config) check = (Inr ?g, ev0)"
    and c: "\<exists>msg. Log CRITICAL msg \<in> set ev0"
    using assms(1)
    by (cases "check (proxy_dict_of config)" rule: check_fails.cases)
       (auto simp: startup_def read_use_proxy_def Let_def proxy_check_failed_def)
  have p: "proxies_of e = Some (proxy_dict_of config)"
    if "e \<in> set (snd (snd (search_compounds_by_name ?g pcp names w))) \<and> is_request e"
    for pcp :: "'w pubchem" and names w e
    using search_compounds_proxies [of e ?g pcp names w] that by simp
  have r: "\<exists>rs. fst (search_compounds_by_name ?g pcp names w) = Inr rs"
    for pcp :: "'w pubchem" and names w
    by (rule search_compounds_returns)
  from s c p r show ?thesis
    by (intro exI [of _ ?g] exI [of _ ev0] conjI allI impI) (simp_all only: globals.simps, blast+)
qed


theorem proxy_check_failure_not_fatal_witness:
  "fst (startup (Some tor_config) unreachable)
     = Inr \<lparr>USE_PROXY = True,
            proxies = Some [(''http'', ''socks5://127.0.0.1:9050''), (''https'', ''socks5://127.0.0.1:9050'')],
            CONNECTION_TYPE = ''Proxy SOCKS5 (socks5://127.0.0.1:9050)''\<rparr>
   \<and> Log CRITICAL ''[SOCKS5 PROXY CHECK] !! CRITICAL FAILURE !! Could not connect through the proxy. Error: timed out''
        \<in> set (snd (startup (Some tor_config) unreachable))
   \<and> proxy_dict_of tor_config = [(''http'', ''socks5://127.0.0.1:9050''), (''https'', ''socks5://127.0.0.1:9050'')]
   \<and> (\<exists>g ev0. startup (Some tor_config) unreachable = (Inr g, ev0)
         \<and> proxies g = Some (proxy_dict_of tor_config)
         \<and> (\<exists>rs. fst (search_compounds_by_name g stub [''Aspirin''] (0, 0)) = Inr rs))"
proof -
  have 1: "use_proxy tor_config = Some True" by (simp add: tor_config_def)
  have 2: "check_fails (unreachable (proxy_dict_of tor_config))" by (simp add: unreachable_def)
  have 3: "fst (startup (Some tor_config) unreachable)
     = Inr \<lparr>USE_PROXY = True,
            proxies = Some [(''http'', ''socks5://127.0.0.1:9050''), (''https'', ''socks5://127.0.0.1:9050'')],
            CONNECTION_TYPE = ''Proxy SOCKS5 (socks5://127.0.0.1:9050)''\<rparr>"
    by (simp add: startup_eval tor_config_def unreachable_def)
  have 4: "Log CRITICAL ''[SOCKS5 PROXY CHECK] !! CRITICAL FAILURE !! Could not connect through the proxy. Error: timed out''
        \<in> set (snd (startup (Some tor_config) unreachable))"
    by (simp add: startup_eval tor_config_def unreachable_def)
  have 5: "proxy_dict_of tor_config = [(''http'', ''socks5://127.0.0.1:9050''), (''https'', ''socks5://127.0.0.1:9050'')]"
    by (simp add: startup_eval tor_config_def)
  from proxy_check_failure_not_fatal [where 'w = "nat \<times> nat" and config = tor_config and check = unreachable, OF 1 2]
  obtain g ev0 where
    "startup (Some tor_config) unreachable = (Inr g, ev0)"
    "proxies g = Some (proxy_dict_of tor_config)"
    "\<forall>(pcp :: (nat \<times> nat) pubchem) names w. \<exists>rs. fst (search_compounds_by_name g pcp names w) = Inr rs"
    by blast
  then have "\<exists>g ev0. startup (Some tor_config) unreachable = (Inr g, ev0)
         \<and> proxies g = Some (proxy_dict_of tor_config)
         \<and> (\<exists>rs. fst (search_compounds_by_name g stub [''Aspirin''] (0, 0)) = Inr rs)"
    by blast
  with 3 4 5 show ?thesis by blast
qed

end
